theory Spec2Isabelle
  imports Main "HOL-Library.Log_Nat" "HOL-Library.AList"
begin

section \<open>Python floats: IEEE 754 binary64 with round-to-nearest-even\<close>

text \<open>
  The influence percentages of \<^verbatim>\<open>influence.py\<close> are Python floats, that is IEEE 754
  binary64 numbers. Every float the program computes is finite and non-negative (it is
  \<^verbatim>\<open>0.0\<close>, or comes from \<^verbatim>\<open>1.0 / (d + 1) * 100.0\<close> with \<open>d \<ge> 0\<close>, or is such a value times
  \<^verbatim>\<open>2.55\<close>), so a float is represented by the rational number it denotes: neither an
  infinity, nor a NaN, nor a negative zero can arise. An arithmetic operation returns the
  exact result rounded to the nearest binary64 number, ties to the even significand.

  A finite binary64 number is \<open>m * 2 ^ e\<close> with \<open>\<bar>m\<bar> < 2 ^ 53\<close> and \<open>- 1074 \<le> e \<le> 971\<close>.
\<close>

type_synonym b64 = rat

definition round_half_even :: "rat \<Rightarrow> int" where
  "round_half_even q =
     (let f = \<lfloor>q\<rfloor>; r = q - of_int f
      in if r < 1 / 2 then f
         else if 1 / 2 < r then f + 1
         else if even f then f else f + 1)"

text \<open>\<open>ilog2 q\<close> is the integer \<open>k\<close> with \<open>2 ^ k \<le> q < 2 ^ (k + 1)\<close>, for \<open>q > 0\<close>.\<close>

definition ilog2 :: "rat \<Rightarrow> int" where
  "ilog2 q =
     (let (a, b) = quotient_of q; k = bitlen a - bitlen b
      in if 2 powi k \<le> q then k else k - 1)"

text \<open>
  The unit in the last place of \<open>q\<close> is \<open>2 ^ ulp_exp q\<close>: 52 binary places below the
  leading bit of a normal number, and \<open>2 ^ - 1074\<close> in the subnormal range.
\<close>

definition ulp_exp :: "rat \<Rightarrow> int" where
  "ulp_exp q = max (ilog2 \<bar>q\<bar> - 52) (- 1074)"

text \<open>
  Rounding to binary64: the significand \<open>\<bar>q\<bar> / 2 ^ ulp_exp q\<close> is rounded to an integer,
  ties to even. The result is not bounded above here; the operation that can overflow
  tests it.
\<close>

definition b64_round :: "rat \<Rightarrow> b64" where
  "b64_round q =
     (if q = 0 then 0
      else let e = ulp_exp q
           in sgn q * of_int (round_half_even (\<bar>q\<bar> / 2 powi e)) * 2 powi e)"

datatype py_error = OverflowError | ZeroDivisionError

text \<open>
  The conversion of a Python int to a float, as applied to the int operand of
  \<^verbatim>\<open>1.0 / (d + 1)\<close>: an int that rounds to \<open>2 ^ 1024\<close> or more raises \<^verbatim>\<open>OverflowError\<close>.
\<close>

definition float_of_int :: "int \<Rightarrow> py_error + b64" where
  "float_of_int n =
     (let r = b64_round (of_int n)
      in if 2 ^ 1024 \<le> \<bar>r\<bar> then Inl OverflowError else Inr r)"

text \<open>
  The quotient of two floats; a zero divisor raises \<^verbatim>\<open>ZeroDivisionError\<close>. The program
  divides \<open>1.0\<close> by a float that is at least 1, so the quotient lies in \<open>[0, 1]\<close>.
\<close>

definition float_truediv :: "b64 \<Rightarrow> b64 \<Rightarrow> py_error + b64" where
  "float_truediv x y = (if y = 0 then Inl ZeroDivisionError else Inr (b64_round (x / y)))"

text \<open>
  The product of two floats. The program multiplies a quotient in \<open>[0, 1]\<close> by \<open>100.0\<close> and
  a percentage in \<open>[0, 100]\<close> by \<open>2.55\<close>, so the product stays far below \<open>2 ^ 1024\<close>.
\<close>

definition float_mul :: "b64 \<Rightarrow> b64 \<Rightarrow> b64" where
  "float_mul x y = b64_round (x * y)"

text \<open>Python's \<^verbatim>\<open>round(x)\<close> on a float returns the nearest int, ties to even.\<close>

definition py_round :: "b64 \<Rightarrow> int" where
  "py_round x = round_half_even x"

text \<open>The float literal \<^verbatim>\<open>2.55\<close> is the binary64 number nearest to \<open>255 / 100\<close>.\<close>

definition lit_2_55 :: b64 where
  "lit_2_55 = b64_round (255 / 100)"

section \<open>The influence engine of \<^verbatim>\<open>influence.py\<close>\<close>

type_synonym point = "int \<times> int"
type_synonym rgb = "int \<times> int \<times> int"
type_synonym influence_map = "(point \<times> (b64 \<times> b64 \<times> rgb)) list"

definition manhattan :: "point \<Rightarrow> point \<Rightarrow> int" where
  "manhattan p1 p2 = \<bar>fst p1 - fst p2\<bar> + \<bar>snd p1 - snd p2\<bar>"

definition colour_from_percentages :: "b64 \<Rightarrow> b64 \<Rightarrow> rgb" where
  "colour_from_percentages black_pct white_pct =
     (let red = py_round (float_mul white_pct lit_2_55);
          green = py_round (float_mul black_pct lit_2_55);
          blue = 0;
          red = max 0 (min 255 red);
          green = max 0 (min 255 green)
      in (red, green, blue))"

text \<open>
  Python's \<^verbatim>\<open>min\<close> over a non-empty sequence, given as its first element and the rest:
  the running minimum is replaced by a strictly smaller element.
\<close>

definition py_min :: "int \<Rightarrow> int list \<Rightarrow> int" where
  "py_min x xs = fold (\<lambda>y m. if y < m then y else m) xs x"

text \<open>The expression \<^verbatim>\<open>1.0 / (d + 1) * 100.0\<close>, evaluated from left to right.\<close>

definition pct_of_distance :: "int \<Rightarrow> py_error + b64" where
  "pct_of_distance d =
     (case float_of_int (d + 1) of
        Inl e \<Rightarrow> Inl e
      | Inr x \<Rightarrow>
          (case float_truediv 1 x of
             Inl e \<Rightarrow> Inl e
           | Inr y \<Rightarrow> Inr (float_mul y 100)))"

text \<open>
  The body of the nested loop for the point \<open>pt = (col, row)\<close>: the percentage of the
  black stones, then that of the white stones, then the colour.
\<close>

definition point_influence ::
  "point list \<Rightarrow> point list \<Rightarrow> point \<Rightarrow> py_error + (b64 \<times> b64 \<times> rgb)" where
  "point_influence black_stones white_stones pt =
     (case (case black_stones of
              [] \<Rightarrow> Inr 0
            | s # ss \<Rightarrow> pct_of_distance (py_min (manhattan pt s) (map (manhattan pt) ss))) of
        Inl e \<Rightarrow> Inl e
      | Inr black_pct \<Rightarrow>
          (case (case white_stones of
                   [] \<Rightarrow> Inr 0
                 | s # ss \<Rightarrow> pct_of_distance (py_min (manhattan pt s) (map (manhattan pt) ss))) of
             Inl e \<Rightarrow> Inl e
           | Inr white_pct \<Rightarrow>
               Inr (black_pct, white_pct, colour_from_percentages black_pct white_pct)))"

text \<open>
  The points in the order of the iteration: \<^verbatim>\<open>for row in range(size)\<close>, and inside
  \<^verbatim>\<open>for col in range(size)\<close>. A size below 1 gives no point.
\<close>

definition grid_points :: "int \<Rightarrow> point list" where
  "grid_points sz = concat (map (\<lambda>row. map (\<lambda>col. (col, row)) [0..sz - 1]) [0..sz - 1])"

text \<open>
  The dictionary \<^verbatim>\<open>influence\<close> is an association list in insertion order;
  \<^verbatim>\<open>influence[pt] = v\<close> is \<^const>\<open>AList.update\<close>. An exception ends the iteration.
\<close>

fun influence_loop ::
  "point list \<Rightarrow> point list \<Rightarrow> point list \<Rightarrow> influence_map \<Rightarrow> py_error + influence_map" where
  "influence_loop black_stones white_stones [] influence = Inr influence"
| "influence_loop black_stones white_stones (pt # pts) influence =
     (case point_influence black_stones white_stones pt of
        Inl e \<Rightarrow> Inl e
      | Inr v \<Rightarrow> influence_loop black_stones white_stones pts (AList.update pt v influence))"

text \<open>
  \<open>occupied\<close> is the list that \<^verbatim>\<open>board.list_occupied_points()\<close> returns: pairs of a colour
  (\<^verbatim>\<open>"b"\<close> or \<^verbatim>\<open>"w"\<close>) and a point.
\<close>

definition compute_influence :: "(string \<times> point) list \<Rightarrow> int \<Rightarrow> py_error + influence_map" where
  "compute_influence occupied sz =
     (let black_stones = [pt. (colour, pt) \<leftarrow> occupied, colour = ''b''];
          white_stones = [pt. (colour, pt) \<leftarrow> occupied, colour = ''w'']
      in influence_loop black_stones white_stones (grid_points sz) [])"


section \<open>Notions of the specification\<close>

text \<open>The stones of one colour, as the list comprehensions of \<^verbatim>\<open>compute_influence\<close> select them.\<close>

definition stones_of :: "string \<Rightarrow> (string \<times> point) list \<Rightarrow> point list" where
  "stones_of c occupied = [pt. (colour, pt) \<leftarrow> occupied, colour = c]"

text \<open>The distance from \<open>p\<close> to the nearest of a non-empty list of stones.\<close>

definition min_distance :: "point list \<Rightarrow> point \<Rightarrow> int" where
  "min_distance stones p = Min (manhattan p ` set stones)"

text \<open>
  The float that \<^verbatim>\<open>1.0 / (d + 1) * 100.0\<close> evaluates to when no exception is raised: three
  roundings, of the int \<open>d + 1\<close>, of the quotient and of the product.
\<close>

definition pct_value :: "int \<Rightarrow> b64" where
  "pct_value d = b64_round (b64_round (1 / b64_round (of_int (d + 1))) * 100)"

text \<open>The percentage as the specification writes it, \<open>100 / (d + 1)\<close>, in exact arithmetic.\<close>

definition spec_pct :: "int \<Rightarrow> rat" where
  "spec_pct d = 100 / (of_int d + 1)"

text \<open>The percentage of one colour at a point: \<open>0\<close> without stones of that colour.\<close>

definition colour_pct :: "point list \<Rightarrow> point \<Rightarrow> py_error + b64" where
  "colour_pct stones p =
     (if stones = [] then Inr 0 else pct_of_distance (min_distance stones p))"

text \<open>
  The operation \<open>blend\<close> of the specification, colour A being black and colour B white.
  Its \<open>clamp\<close> and its \<open>round\<close> are written here on their own, not taken from the
  program: \<open>nearest_int q\<close> is the integer nearest to \<open>q\<close>, the even one when \<open>q\<close> lies
  halfway between two integers.
\<close>

definition clamp :: "int \<Rightarrow> int \<Rightarrow> int \<Rightarrow> int" where
  "clamp v lo hi = (if v < lo then lo else if hi < v then hi else v)"

definition nearest_int :: "rat \<Rightarrow> int" where
  "nearest_int q =
     (let n = \<lfloor>q + 1 / 2\<rfloor> in if of_int n = q + 1 / 2 \<and> odd n then n - 1 else n)"

text \<open>The formulas of the specification read in exact arithmetic.\<close>

definition blend :: "rat \<Rightarrow> rat \<Rightarrow> rgb" where
  "blend pctA pctB =
     (clamp (nearest_int (pctB * (255 / 100))) 0 255,
      clamp (nearest_int (pctA * (255 / 100))) 0 255,
      0)"

text \<open>
  The formulas read in float arithmetic: the factor is the float nearest to \<open>2.55\<close>, which
  is \<open>2871044762448691 / 2 ^ 50\<close>, and the product is rounded to binary64 before it is
  rounded to an integer.
\<close>

definition double_2_55 :: rat where
  "double_2_55 = 2871044762448691 / 2 ^ 50"

definition blend_float :: "b64 \<Rightarrow> b64 \<Rightarrow> rgb" where
  "blend_float pctA pctB =
     (clamp (nearest_int (b64_round (pctB * double_2_55))) 0 255,
      clamp (nearest_int (b64_round (pctA * double_2_55))) 0 255,
      0)"

text \<open>The entry of a point in the map returned for a board, if a map is returned.\<close>

definition lookup_influence ::
  "(string \<times> point) list \<Rightarrow> int \<Rightarrow> point \<Rightarrow> (b64 \<times> b64 \<times> rgb) option" where
  "lookup_influence occupied sz p =
     (case compute_influence occupied sz of Inl e \<Rightarrow> None | Inr m \<Rightarrow> map_of m p)"

text \<open>Exchanging the two colours of a board, and the two colours in an entry of the map.\<close>

definition swap_colours :: "(string \<times> point) list \<Rightarrow> (string \<times> point) list" where
  "swap_colours occupied =
     map (\<lambda>(colour, pt). (if colour = ''b'' then ''w'' else if colour = ''w'' then ''b'' else colour, pt))
       occupied"

definition swap_value :: "b64 \<times> b64 \<times> rgb \<Rightarrow> b64 \<times> b64 \<times> rgb" where
  "swap_value v = (case v of (a, b, (r, g, bl)) \<Rightarrow> (b, a, (g, r, bl)))"

definition swap_entry :: "point \<times> (b64 \<times> b64 \<times> rgb) \<Rightarrow> point \<times> (b64 \<times> b64 \<times> rgb)" where
  "swap_entry e = (fst e, swap_value (snd e))"

text \<open>A well-formed board: every stone lies on the \<open>sz \<times> sz\<close> grid.\<close>

definition on_grid :: "int \<Rightarrow> (string \<times> point) list \<Rightarrow> bool" where
  "on_grid sz occupied =
     list_all (\<lambda>(colour, pt). 0 \<le> fst pt \<and> fst pt < sz \<and> 0 \<le> snd pt \<and> snd pt < sz) occupied"

section \<open>Rounding to the nearest integer\<close>

lemma round_half_even_bounds:
  "of_int (round_half_even q) - 1 / 2 \<le> q \<and> q \<le> of_int (round_half_even q) + 1 / 2"
proof -
  have "of_int \<lfloor>q\<rfloor> \<le> q" "q < of_int \<lfloor>q\<rfloor> + 1" by linarith+
  then show ?thesis
    unfolding round_half_even_def Let_def by (auto split: if_splits) linarith+
qed

lemma round_half_even_of_int [simp]: "round_half_even (of_int n) = n"
  by (simp add: round_half_even_def)

lemma round_half_even_mono:
  assumes "x \<le> y"
  shows "round_half_even x \<le> round_half_even y"
proof (rule ccontr)
  assume "\<not> ?thesis"
  then have lt: "round_half_even y + 1 \<le> round_half_even x" by simp
  then have "(of_int (round_half_even y) :: rat) + 1 \<le> of_int (round_half_even x)"
    by (metis of_int_1 of_int_add of_int_le_iff)
  with round_half_even_bounds [of x] round_half_even_bounds [of y] assms
  have "x = y" by linarith
  with lt show False by simp
qed

lemma round_half_even_ge: "of_int n \<le> q \<Longrightarrow> n \<le> round_half_even q"
  using round_half_even_mono [of "of_int n" q] by simp

lemma round_half_even_le: "q \<le> of_int n \<Longrightarrow> round_half_even q \<le> n"
  using round_half_even_mono [of q "of_int n"] by simp

section \<open>Rounding to binary64\<close>

lemma bitlen_rat_bounds:
  assumes "0 < a"
  shows "2 powi (bitlen a - 1) \<le> (of_int a :: rat)" and "(of_int a :: rat) < 2 powi (bitlen a)"
proof -
  from assms have l: "1 \<le> bitlen a"
    using bitlen_eq_zero_iff [of a] bitlen_nonneg [of a] by linarith
  from bitlen_bounds [OF assms]
  have "(2::int) ^ nat (bitlen a - 1) \<le> a" and "a < 2 ^ nat (bitlen a)" by simp_all
  then have "(of_int ((2::int) ^ nat (bitlen a - 1)) :: rat) \<le> of_int a"
    and "(of_int a :: rat) < of_int (2 ^ nat (bitlen a))"
    by (simp_all only: of_int_le_iff of_int_less_iff)
  with l show "2 powi (bitlen a - 1) \<le> (of_int a :: rat)"
    and "(of_int a :: rat) < 2 powi (bitlen a)"
    by (simp_all add: power_int_nonneg_exp)
qed

lemma ilog2_bounds:
  assumes "0 < q"
  shows "2 powi (ilog2 q) \<le> q \<and> q < 2 powi (ilog2 q + 1)"
proof -
  obtain a b where ab: "quotient_of q = (a, b)" by (cases "quotient_of q")
  then have q: "q = of_int a / of_int b" and b: "0 < b"
    by (simp_all add: quotient_of_div quotient_of_denom_pos)
  with assms have a: "0 < a"
    by (simp add: zero_less_divide_iff)
  define la lb where "la = bitlen a" and "lb = bitlen b"
  have la: "2 powi (la - 1) \<le> (of_int a :: rat)" "(of_int a :: rat) < 2 powi la"
    using bitlen_rat_bounds [OF a] by (simp_all add: la_def)
  have lb: "2 powi (lb - 1) \<le> (of_int b :: rat)" "(of_int b :: rat) < 2 powi lb"
    using bitlen_rat_bounds [OF b] by (simp_all add: lb_def)
  have pos: "(0::rat) < 2 powi (lb - 1)" "(0::rat) < 2 powi lb" "(0::rat) < of_int b" "(0::rat) < of_int a"
    using a b by simp_all
  have "q < 2 powi la / 2 powi (lb - 1)"
    unfolding q using la(2) lb(1) pos
    by (intro frac_less) simp_all
  also have "\<dots> = 2 powi (la - lb + 1)"
    by (simp add: power_int_diff [symmetric] algebra_simps)
  finally have up: "q < 2 powi (la - lb + 1)" .
  have "2 powi (la - 1) / 2 powi lb < q"
    unfolding q using la(1) lb(2) pos
    by (intro frac_less2) simp_all
  moreover have "2 powi (la - 1) / 2 powi lb = (2::rat) powi (la - lb - 1)"
    by (simp add: power_int_diff [symmetric] algebra_simps)
  ultimately have lo: "2 powi (la - lb - 1) < q" by simp
  show ?thesis
    using up lo ab by (auto simp: ilog2_def Let_def la_def lb_def)
qed

lemma powi2_less_imp: "(2::rat) powi m < 2 powi n \<Longrightarrow> m < n"
  using power_int_increasing [of n m "2::rat"] by (cases "m < n") simp_all

lemma ilog2_unique:
  assumes "2 powi k \<le> q" and "q < 2 powi (k + 1)"
  shows "ilog2 q = k"
proof -
  have "(0::rat) < 2 powi k" by simp
  with assms have q: "0 < q" by linarith
  note b = ilog2_bounds [OF q]
  have "2 powi (ilog2 q) < (2::rat) powi (k + 1)" using b assms by linarith
  then have 1: "ilog2 q < k + 1" by (rule powi2_less_imp)
  have "2 powi k < (2::rat) powi (ilog2 q + 1)" using b assms by linarith
  then have 2: "k < ilog2 q + 1" by (rule powi2_less_imp)
  from 1 2 show ?thesis by simp
qed

lemma ilog2_mono:
  assumes "0 < x" and "x \<le> y"
  shows "ilog2 x \<le> ilog2 y"
proof -
  have y: "0 < y" using assms by simp
  have "2 powi (ilog2 x) < (2::rat) powi (ilog2 y + 1)"
    using ilog2_bounds [OF assms(1)] ilog2_bounds [OF y] assms(2) by linarith
  then have "ilog2 x < ilog2 y + 1" by (rule powi2_less_imp)
  then show ?thesis by simp
qed


lemma b64_round_zero [simp]: "b64_round 0 = 0"
  by (simp add: b64_round_def)

lemma b64_round_pos:
  assumes "0 < q"
  shows "b64_round q = of_int (round_half_even (q / 2 powi ulp_exp q)) * 2 powi ulp_exp q"
  using assms by (simp add: b64_round_def Let_def)

lemma b64_round_nonneg:
  assumes "0 \<le> q"
  shows "0 \<le> b64_round q"
proof (cases "q = 0")
  case True
  then show ?thesis by simp
next
  case False
  with assms have q: "0 < q" by simp
  have "(of_int 0 :: rat) \<le> q / 2 powi ulp_exp q" using q by simp
  then have "0 \<le> round_half_even (q / 2 powi ulp_exp q)"
    by (rule round_half_even_ge)
  then show ?thesis
    by (simp add: b64_round_pos [OF q])
qed

lemma ulp_exp_mono:
  assumes "0 < x" and "x \<le> y"
  shows "ulp_exp x \<le> ulp_exp y"
  using ilog2_mono [of "\<bar>x\<bar>" "\<bar>y\<bar>"] assms by (simp add: ulp_exp_def)

lemma scaled_round_ge:
  assumes "of_int n * 2 powi e \<le> (y::rat)"
  shows "of_int n * 2 powi e \<le> (of_int (round_half_even (y / 2 powi e)) :: rat) * 2 powi e"
proof -
  have p: "(0::rat) < 2 powi e" by simp
  from assms have "of_int n \<le> y / 2 powi e"
    by (simp add: pos_le_divide_eq [OF p])
  then have "n \<le> round_half_even (y / 2 powi e)"
    by (rule round_half_even_ge)
  then have "(of_int n :: rat) \<le> of_int (round_half_even (y / 2 powi e))"
    by (simp only: of_int_le_iff)
  then show ?thesis
    by (rule mult_right_mono) simp
qed

lemma scaled_round_le:
  assumes "(x::rat) \<le> of_int n * 2 powi e"
  shows "(of_int (round_half_even (x / 2 powi e)) :: rat) * 2 powi e \<le> of_int n * 2 powi e"
proof -
  have p: "(0::rat) < 2 powi e" by simp
  from assms have "x / 2 powi e \<le> of_int n"
    by (simp add: pos_divide_le_eq [OF p])
  then have "round_half_even (x / 2 powi e) \<le> n"
    by (rule round_half_even_le)
  then have "(of_int (round_half_even (x / 2 powi e)) :: rat) \<le> of_int n"
    by (simp only: of_int_le_iff)
  then show ?thesis
    by (rule mult_right_mono) simp
qed

lemma powi2_split: "(2::rat) powi (e + int k) = of_int (2 ^ k) * 2 powi e"
  by (simp add: power_int_add)

lemma b64_round_upper:
  assumes "0 < x"
  shows "b64_round x \<le> 2 powi (ulp_exp x + 53)"
proof -
  let ?e = "ulp_exp x"
  have "ilog2 x + 1 \<le> ?e + 53" using assms by (simp add: ulp_exp_def)
  then have "(2::rat) powi (ilog2 x + 1) \<le> 2 powi (?e + 53)"
    by (intro power_int_increasing) simp_all
  with ilog2_bounds [OF assms] have "x \<le> 2 powi (?e + int 53)" by simp
  then have "x \<le> of_int (2 ^ 53) * 2 powi ?e"
    by (simp only: powi2_split)
  then have "(of_int (round_half_even (x / 2 powi ?e)) :: rat) * 2 powi ?e \<le> of_int (2 ^ 53) * 2 powi ?e"
    by (rule scaled_round_le)
  then have "b64_round x \<le> 2 powi (?e + int 53)"
    by (simp only: powi2_split b64_round_pos [OF assms])
  then show ?thesis by simp
qed

lemma b64_round_lower:
  assumes "0 < y" and "- 1074 < ulp_exp y"
  shows "2 powi (ulp_exp y + 52) \<le> b64_round y"
proof -
  let ?e = "ulp_exp y"
  from assms have e: "?e + 52 = ilog2 y" by (simp add: ulp_exp_def max_def split: if_splits)
  with ilog2_bounds [OF assms(1)] have "2 powi (?e + int 52) \<le> y" by simp
  then have "of_int (2 ^ 52) * 2 powi ?e \<le> y"
    by (simp only: powi2_split)
  then have "of_int (2 ^ 52) * 2 powi ?e \<le> (of_int (round_half_even (y / 2 powi ?e)) :: rat) * 2 powi ?e"
    by (rule scaled_round_ge)
  then have "2 powi (?e + int 52) \<le> b64_round y"
    by (simp only: powi2_split b64_round_pos [OF assms(1)])
  then show ?thesis by simp
qed

lemma b64_round_mono:
  assumes "0 \<le> x" and "x \<le> y"
  shows "b64_round x \<le> b64_round y"
proof (cases "x = 0")
  case True
  with assms show ?thesis by (simp add: b64_round_nonneg)
next
  case False
  with assms have x: "0 < x" and y: "0 < y" by simp_all
  have le: "ulp_exp x \<le> ulp_exp y" using x assms(2) by (rule ulp_exp_mono)
  show ?thesis
  proof (cases "ulp_exp x = ulp_exp y")
    case True
    have "x / 2 powi ulp_exp y \<le> y / 2 powi ulp_exp y"
      using assms(2) by (simp add: divide_right_mono)
    then have "round_half_even (x / 2 powi ulp_exp y) \<le> round_half_even (y / 2 powi ulp_exp y)"
      by (rule round_half_even_mono)
    then have "(of_int (round_half_even (x / 2 powi ulp_exp y)) :: rat)
        \<le> of_int (round_half_even (y / 2 powi ulp_exp y))"
      by (simp only: of_int_le_iff)
    then have "of_int (round_half_even (x / 2 powi ulp_exp y)) * (2::rat) powi ulp_exp y
        \<le> of_int (round_half_even (y / 2 powi ulp_exp y)) * 2 powi ulp_exp y"
      by (intro mult_right_mono) simp_all
    then show ?thesis
      by (simp add: b64_round_pos [OF x] b64_round_pos [OF y] True)
  next
    case False
    with le have lt: "ulp_exp x + 53 \<le> ulp_exp y + 52" by simp
    have "- 1074 \<le> ulp_exp x" by (simp add: ulp_exp_def)
    with False le have "- 1074 < ulp_exp y" by simp
    then have "2 powi (ulp_exp y + 52) \<le> b64_round y"
      using y by (intro b64_round_lower)
    moreover have "(2::rat) powi (ulp_exp x + 53) \<le> 2 powi (ulp_exp y + 52)"
      using lt by (intro power_int_increasing) simp_all
    ultimately show ?thesis
      using b64_round_upper [OF x] by linarith
  qed
qed

lemma b64_round_1 [simp]: "b64_round 1 = 1"
  by code_simp

lemma b64_round_100 [simp]: "b64_round 100 = 100"
  by code_simp

lemma b64_round_exact:
  assumes "2 ^ 52 \<le> m" and "m < 2 ^ 53" and "- 1074 \<le> e"
  shows "b64_round (of_int m * 2 powi e) = of_int m * 2 powi e"
proof -
  let ?q = "of_int m * (2::rat) powi e"
  have m: "(of_int (2 ^ 52) :: rat) \<le> of_int m" "(of_int m :: rat) < of_int (2 ^ 53)"
    using assms by (simp_all only: of_int_le_iff of_int_less_iff)
  have p: "(0::rat) < 2 powi e" by simp
  have "of_int (2 ^ 52) * 2 powi e \<le> ?q"
    using m(1) by (rule mult_right_mono) simp
  moreover have "?q < of_int (2 ^ 53) * 2 powi e"
    using m(2) p by (rule mult_strict_right_mono)
  ultimately have "of_int (2 ^ 52) * 2 powi e \<le> ?q" "?q < of_int (2 ^ 53) * 2 powi e"
    by blast+
  then have "2 powi (e + int 52) \<le> ?q" "?q < 2 powi (e + int 53)"
    by (simp_all only: powi2_split)
  then have "2 powi (e + 52) \<le> ?q" "?q < 2 powi (e + 52 + 1)"
    by (simp_all add: add.assoc)
  then have l: "ilog2 ?q = e + 52" by (rule ilog2_unique)
  have pos: "0 < ?q" using assms(1) by (simp add: zero_less_mult_iff)
  then have a: "\<bar>?q\<bar> = ?q" by simp
  have u: "ulp_exp ?q = e" using assms(3) by (simp only: ulp_exp_def a l)
  show ?thesis
    by (simp only: b64_round_pos [OF pos] u) simp
qed

lemma b64_round_2_1023: "b64_round (2 ^ 1023) = 2 ^ 1023"
  using b64_round_exact [of "2 ^ 52" 971] by (simp add: power_int_add [symmetric] flip: power_add)

lemma b64_round_2_1024: "b64_round (2 ^ 1024) = 2 ^ 1024"
  using b64_round_exact [of "2 ^ 52" 972] by (simp flip: power_add)


section \<open>The percentage of a colour at a point\<close>

lemma clamp_max_min: "max 0 (min 255 v) = clamp v 0 255"
  by (simp add: clamp_def max_def min_def)

lemma py_min_eq_Min: "py_min x xs = Min (set (x # xs))"
proof -
  have "fold (\<lambda>y m. if y < m then y else m) xs x = fold min xs x"
    by (rule arg_cong [where f = "\<lambda>f. fold f xs x"]) (auto simp: min_def fun_eq_iff)
  moreover have "Min (set (x # xs)) = fold min xs x"
    by (rule Min.set_eq_fold)
  ultimately show ?thesis
    by (simp only: py_min_def)
qed

lemma stones_case_eq:
  "(case stones of [] \<Rightarrow> Inr 0
    | s # ss \<Rightarrow> pct_of_distance (py_min (manhattan pt s) (map (manhattan pt) ss)))
   = colour_pct stones pt"
  by (cases stones) (simp_all add: colour_pct_def min_distance_def py_min_eq_Min)

lemma point_influence_eq:
  "point_influence bs ws pt =
     (case colour_pct bs pt of
        Inl e \<Rightarrow> Inl e
      | Inr a \<Rightarrow> (case colour_pct ws pt of
                    Inl e \<Rightarrow> Inl e
                  | Inr b \<Rightarrow> Inr (a, b, colour_from_percentages a b)))"
  by (simp add: point_influence_def stones_case_eq cong: sum.case_cong)

lemma compute_influence_eq:
  "compute_influence occupied sz =
     influence_loop (stones_of ''b'' occupied) (stones_of ''w'' occupied) (grid_points sz) []"
  by (simp add: compute_influence_def stones_of_def)

lemma manhattan_nonneg: "0 \<le> manhattan p s"
  by (simp add: manhattan_def)

lemma min_distance_nonneg:
  assumes "stones \<noteq> []"
  shows "0 \<le> min_distance stones p"
  using assms by (simp add: min_distance_def manhattan_nonneg)

lemma b64_round_of_int_ge_1:
  assumes "0 \<le> d"
  shows "1 \<le> b64_round (of_int (d + 1))"
proof -
  have "(1::rat) \<le> of_int (d + 1)" using assms by simp
  then have "b64_round 1 \<le> b64_round (of_int (d + 1))"
    by (intro b64_round_mono) simp_all
  then show ?thesis by simp
qed

lemma pct_of_distance_cases:
  assumes "0 \<le> d"
  shows "pct_of_distance d =
     (if 2 ^ 1024 \<le> b64_round (of_int (d + 1)) then Inl OverflowError else Inr (pct_value d))"
proof -
  from b64_round_of_int_ge_1 [OF assms]
  have "0 < b64_round (of_int (d + 1))" by linarith
  then show ?thesis
    by (simp add: pct_of_distance_def float_of_int_def float_truediv_def float_mul_def
        pct_value_def Let_def)
qed

lemma pct_value_antimono:
  assumes "0 \<le> d" and "d \<le> d'"
  shows "pct_value d' \<le> pct_value d"
proof -
  let ?x = "b64_round (of_int (d + 1))" and ?x' = "b64_round (of_int (d' + 1))"
  have x: "1 \<le> ?x" using assms(1) by (rule b64_round_of_int_ge_1)
  have "(of_int (d + 1) :: rat) \<le> of_int (d' + 1)" using assms(2) by simp
  moreover have "(0::rat) \<le> of_int (d + 1)" using assms(1) by simp
  ultimately have "?x \<le> ?x'" by (intro b64_round_mono)
  with x have "1 / ?x' \<le> 1 / ?x" "0 \<le> 1 / ?x'"
    by (simp_all add: frac_le)
  then have "b64_round (1 / ?x') \<le> b64_round (1 / ?x)" "0 \<le> b64_round (1 / ?x')"
    by (simp_all add: b64_round_mono b64_round_nonneg)
  then have "b64_round (1 / ?x') * 100 \<le> b64_round (1 / ?x) * 100" "0 \<le> b64_round (1 / ?x') * 100"
    by simp_all
  then show ?thesis
    unfolding pct_value_def by (intro b64_round_mono)
qed

lemma pct_value_0 [simp]: "pct_value 0 = 100"
  by (simp add: pct_value_def)

lemma pct_value_range:
  assumes "0 \<le> d"
  shows "0 \<le> pct_value d" and "pct_value d \<le> 100"
proof -
  let ?x = "b64_round (of_int (d + 1))"
  have x: "1 \<le> ?x" using assms by (rule b64_round_of_int_ge_1)
  then have "0 \<le> 1 / ?x" by simp
  then have "0 \<le> b64_round (1 / ?x) * 100" by (simp add: b64_round_nonneg)
  then show "0 \<le> pct_value d" unfolding pct_value_def by (rule b64_round_nonneg)
  show "pct_value d \<le> 100"
    using pct_value_antimono [of 0 d] assms by simp
qed


lemma colour_pct_cases:
  "colour_pct stones p =
     (if stones = [] then Inr 0
      else if 2 ^ 1024 \<le> b64_round (of_int (min_distance stones p + 1)) then Inl OverflowError
      else Inr (pct_value (min_distance stones p)))"
  by (simp add: colour_pct_def pct_of_distance_cases min_distance_nonneg)

lemma colour_pct_Inr:
  assumes "colour_pct stones p = Inr a"
  shows "a = (if stones = [] then 0 else pct_value (min_distance stones p))"
  using assms by (simp add: colour_pct_cases split: if_splits)

lemma colour_pct_Inl:
  assumes "colour_pct stones p = Inl e"
  shows "e = OverflowError"
  using assms by (simp add: colour_pct_cases split: if_splits)

lemma point_influence_Inr:
  assumes "point_influence bs ws p = Inr v"
  shows "v = (if bs = [] then 0 else pct_value (min_distance bs p),
              if ws = [] then 0 else pct_value (min_distance ws p),
              colour_from_percentages
                (if bs = [] then 0 else pct_value (min_distance bs p))
                (if ws = [] then 0 else pct_value (min_distance ws p)))"
  using assms
  by (auto simp: point_influence_eq split: sum.splits dest!: colour_pct_Inr)

lemma point_influence_Inl:
  assumes "point_influence bs ws p = Inl e"
  shows "e = OverflowError"
  using assms
  by (auto simp: point_influence_eq split: sum.splits dest: colour_pct_Inl)

subsection \<open>The iteration over the grid\<close>

lemma set_grid_points: "set (grid_points sz) = {0..sz - 1} \<times> {0..sz - 1}"
  by (auto simp: grid_points_def)

lemma distinct_grid_points: "distinct (grid_points sz)"
  unfolding grid_points_def
  by (rule distinct_concat) (auto simp: distinct_map inj_on_def)

lemma length_grid_points: "length (grid_points sz) = nat sz * nat sz"
  by (simp add: grid_points_def length_concat comp_def sum_list_triv)

lemma influence_loop_Cons_Inr:
  assumes "influence_loop bs ws (pt # pts) acc = Inr m"
  obtains v where "point_influence bs ws pt = Inr v"
    and "influence_loop bs ws pts (AList.update pt v acc) = Inr m"
  using assms by (cases "point_influence bs ws pt") simp_all

lemma influence_loop_other:
  assumes "influence_loop bs ws pts acc = Inr m" and "p \<notin> set pts"
  shows "map_of m p = map_of acc p"
  using assms
proof (induction pts arbitrary: acc)
  case Nil
  then show ?case by simp
next
  case (Cons pt pts)
  from Cons.prems(1) obtain v where
    "influence_loop bs ws pts (AList.update pt v acc) = Inr m"
    by (rule influence_loop_Cons_Inr)
  with Cons.IH [of "AList.update pt v acc"] Cons.prems(2)
  show ?case by (simp add: update_conv')
qed

lemma influence_loop_lookup:
  assumes "influence_loop bs ws pts acc = Inr m" and "p \<in> set pts"
  shows "\<exists>v. point_influence bs ws p = Inr v \<and> map_of m p = Some v"
  using assms
proof (induction pts arbitrary: acc)
  case Nil
  then show ?case by simp
next
  case (Cons pt pts)
  from Cons.prems(1) obtain v where v: "point_influence bs ws pt = Inr v"
    and rest: "influence_loop bs ws pts (AList.update pt v acc) = Inr m"
    by (rule influence_loop_Cons_Inr)
  show ?case
  proof (cases "p \<in> set pts")
    case True
    with rest show ?thesis by (rule Cons.IH)
  next
    case False
    with Cons.prems(2) have p: "p = pt" by simp
    from rest False have "map_of m p = map_of (AList.update pt v acc) p"
      by (rule influence_loop_other)
    with p have "map_of m p = Some v" by (simp add: update_conv')
    with p v show ?thesis by blast
  qed
qed

lemma influence_loop_keys:
  assumes "influence_loop bs ws pts acc = Inr m" and "distinct (map fst acc)"
  shows "distinct (map fst m) \<and> set (map fst m) = set (map fst acc) \<union> set pts"
  using assms
proof (induction pts arbitrary: acc)
  case Nil
  then show ?case by simp
next
  case (Cons pt pts)
  from Cons.prems(1) obtain v where
    rest: "influence_loop bs ws pts (AList.update pt v acc) = Inr m"
    by (rule influence_loop_Cons_Inr)
  have "distinct (map fst (AList.update pt v acc))"
    using Cons.prems(2) by (rule distinct_update)
  with rest have "distinct (map fst m) \<and>
      set (map fst m) = set (map fst (AList.update pt v acc)) \<union> set pts"
    by (rule Cons.IH)
  moreover have "set (map fst (AList.update pt v acc)) = insert pt (set (map fst acc))"
    by (auto simp: update_keys)
  ultimately show ?case by auto
qed

lemma influence_loop_returns:
  assumes "\<forall>p \<in> set pts. \<exists>v. point_influence bs ws p = Inr v"
  shows "\<exists>m. influence_loop bs ws pts acc = Inr m"
  using assms by (induction pts arbitrary: acc) auto


lemma compute_influence_lookup:
  assumes "compute_influence occupied sz = Inr m" and "p \<in> set (grid_points sz)"
  shows "\<exists>v. point_influence (stones_of ''b'' occupied) (stones_of ''w'' occupied) p = Inr v
           \<and> map_of m p = Some v"
  using assms unfolding compute_influence_eq by (rule influence_loop_lookup)

lemma compute_influence_keys:
  assumes "compute_influence occupied sz = Inr m"
  shows "distinct (map fst m)" and "set (map fst m) = set (grid_points sz)"
  using influence_loop_keys [OF assms [unfolded compute_influence_eq]] by simp_all

lemma compute_influence_entry:
  assumes "compute_influence occupied sz = Inr m" and "(p, v) \<in> set m"
  shows "p \<in> set (grid_points sz)"
    and "point_influence (stones_of ''b'' occupied) (stones_of ''w'' occupied) p = Inr v"
proof -
  from assms(2) have "p \<in> set (map fst m)" by force
  then show p: "p \<in> set (grid_points sz)"
    by (simp only: compute_influence_keys(2) [OF assms(1)])
  from compute_influence_lookup [OF assms(1) p] obtain v' where
    v': "point_influence (stones_of ''b'' occupied) (stones_of ''w'' occupied) p = Inr v'"
    and "map_of m p = Some v'" by blast
  moreover have "map_of m p = Some v"
    using compute_influence_keys(1) [OF assms(1)] assms(2) by simp
  ultimately show "point_influence (stones_of ''b'' occupied) (stones_of ''w'' occupied) p = Inr v"
    by simp
qed


section \<open>The range of the conversion to float\<close>

lemma no_overflow:
  assumes "0 \<le> d" and "d + 1 \<le> 2 ^ 1023"
  shows "\<not> 2 ^ 1024 \<le> b64_round (of_int (d + 1))"
proof -
  have "(of_int (d + 1) :: rat) \<le> of_int (2 ^ 1023)"
    using assms(2) by (simp only: of_int_le_iff)
  then have "(of_int (d + 1) :: rat) \<le> 2 ^ 1023" by simp
  moreover have "(0::rat) \<le> of_int (d + 1)" using assms(1) by simp
  ultimately have "b64_round (of_int (d + 1)) \<le> b64_round (2 ^ 1023)"
    by (intro b64_round_mono)
  also have "\<dots> = 2 ^ 1023" by (rule b64_round_2_1023)
  also have "\<dots> < (2::rat) ^ 1024" by (rule power_strict_increasing) simp_all
  finally show ?thesis by simp
qed

lemma pct_of_distance_in_range:
  assumes "0 \<le> d" and "d + 1 \<le> 2 ^ 1023"
  shows "pct_of_distance d = Inr (pct_value d)"
  using no_overflow [OF assms] by (simp add: pct_of_distance_cases [OF assms(1)])

lemma small_in_range: "d \<le> 4 \<Longrightarrow> d + 1 \<le> (2::int) ^ 1023"
proof -
  assume "d \<le> 4"
  moreover have "(2::int) ^ 3 \<le> 2 ^ 1023" by (rule power_increasing) simp_all
  ultimately show ?thesis by simp
qed

subsection \<open>Evaluation at small distances\<close>

lemma pct_value_1: "pct_value 1 = 50"
  by code_simp
lemma pct_value_2: "pct_value 2 = 2345624805922133 / 70368744177664"
  by code_simp
lemma pct_value_3: "pct_value 3 = 25"
  by code_simp
lemma pct_value_4: "pct_value 4 = 20"
  by code_simp

lemma pct_of_distance_0: "pct_of_distance 0 = Inr 100"
  using pct_of_distance_in_range [of 0] small_in_range [of 0] by simp
lemma pct_of_distance_1: "pct_of_distance 1 = Inr 50"
  using pct_of_distance_in_range [of 1] small_in_range [of 1] by (simp add: pct_value_1)
lemma pct_of_distance_2: "pct_of_distance 2 = Inr (2345624805922133 / 70368744177664)"
  using pct_of_distance_in_range [of 2] small_in_range [of 2] by (simp add: pct_value_2)
lemma pct_of_distance_3: "pct_of_distance 3 = Inr 25"
  using pct_of_distance_in_range [of 3] small_in_range [of 3] by (simp add: pct_value_3)
lemma pct_of_distance_4: "pct_of_distance 4 = Inr 20"
  using pct_of_distance_in_range [of 4] small_in_range [of 4] by (simp add: pct_value_4)

lemma colour_0_0: "colour_from_percentages 0 0 = (0, 0, 0)"
  by code_simp
lemma colour_100_0: "colour_from_percentages 100 0 = (0, 255, 0)"
  by code_simp
lemma colour_50_0: "colour_from_percentages 50 0 = (0, 127, 0)"
  by code_simp
lemma colour_33_0: "colour_from_percentages (2345624805922133 / 70368744177664) 0 = (0, 85, 0)"
  by code_simp
lemma colour_25_0: "colour_from_percentages 25 0 = (0, 64, 0)"
  by code_simp
lemma colour_20_0: "colour_from_percentages 20 0 = (0, 51, 0)"
  by code_simp

lemma grid_points_3:
  "grid_points 3 = [(0, 0), (1, 0), (2, 0), (0, 1), (1, 1), (2, 1), (0, 2), (1, 2), (2, 2)]"
  by code_simp

lemma min_distance_single [simp]: "min_distance [s] p = manhattan p s"
  by (simp add: min_distance_def)

lemma point_influence_single_black:
  "point_influence [s] [] p =
     (case pct_of_distance (manhattan p s) of
        Inl e \<Rightarrow> Inl e
      | Inr a \<Rightarrow> Inr (a, 0, colour_from_percentages a 0))"
  by (simp add: point_influence_eq colour_pct_def cong: sum.case_cong)

lemma compute_influence_3x3:
  "compute_influence [(''b'', (0, 0))] 3 =
     Inr [((0, 0), 100, 0, 0, 255, 0),
          ((1, 0), 50, 0, 0, 127, 0),
          ((2, 0), 2345624805922133 / 70368744177664, 0, 0, 85, 0),
          ((0, 1), 50, 0, 0, 127, 0),
          ((1, 1), 2345624805922133 / 70368744177664, 0, 0, 85, 0),
          ((2, 1), 25, 0, 0, 64, 0),
          ((0, 2), 2345624805922133 / 70368744177664, 0, 0, 85, 0),
          ((1, 2), 25, 0, 0, 64, 0),
          ((2, 2), 20, 0, 0, 51, 0)]"
  by (simp add: compute_influence_eq stones_of_def grid_points_3 point_influence_single_black
      manhattan_def pct_of_distance_0 pct_of_distance_1 pct_of_distance_2 pct_of_distance_3
      pct_of_distance_4 colour_100_0 colour_50_0 colour_33_0 colour_25_0 colour_20_0)


section \<open>Boards on which a map is returned\<close>

lemma manhattan_on_grid:
  assumes "0 \<le> fst p" "fst p < sz" "0 \<le> snd p" "snd p < sz"
    and "0 \<le> fst s" "fst s < sz" "0 \<le> snd s" "snd s < sz"
  shows "manhattan p s + 1 \<le> 2 * sz - 1"
  using assms by (simp add: manhattan_def)

lemma stones_of_on_grid:
  assumes "on_grid sz occupied" and "s \<in> set (stones_of c occupied)"
  shows "0 \<le> fst s \<and> fst s < sz \<and> 0 \<le> snd s \<and> snd s < sz"
  using assms by (auto simp: on_grid_def stones_of_def list_all_iff)

lemma min_distance_le:
  assumes "s \<in> set stones"
  shows "min_distance stones p \<le> manhattan p s"
  using assms by (simp add: min_distance_def)

lemma colour_pct_on_grid:
  assumes "on_grid sz occupied" and "sz \<le> 2 ^ 1022" and "p \<in> set (grid_points sz)"
  shows "colour_pct (stones_of c occupied) p =
     Inr (if stones_of c occupied = [] then 0 else pct_value (min_distance (stones_of c occupied) p))"
proof (cases "stones_of c occupied = []")
  case True
  then show ?thesis by (simp add: colour_pct_def)
next
  case False
  then obtain s where s: "s \<in> set (stones_of c occupied)" by (cases "stones_of c occupied") auto
  let ?d = "min_distance (stones_of c occupied) p"
  have p: "0 \<le> fst p" "fst p < sz" "0 \<le> snd p" "snd p < sz"
    using assms(3) by (auto simp: set_grid_points)
  have "?d + 1 \<le> manhattan p s + 1" using min_distance_le [OF s] by simp
  also have "\<dots> \<le> 2 * sz - 1"
    using p stones_of_on_grid [OF assms(1) s] by (intro manhattan_on_grid) simp_all
  also have "\<dots> \<le> 2 * 2 ^ 1022" using assms(2) by simp
  also have "\<dots> = (2::int) ^ 1023" by simp
  finally have "?d + 1 \<le> 2 ^ 1023" .
  with False show ?thesis
    by (simp add: colour_pct_def pct_of_distance_in_range min_distance_nonneg)
qed

lemma compute_influence_returns:
  assumes "on_grid sz occupied" and "sz \<le> 2 ^ 1022"
  shows "\<exists>m. compute_influence occupied sz = Inr m"
  unfolding compute_influence_eq
proof (rule influence_loop_returns, rule ballI)
  fix p
  assume p: "p \<in> set (grid_points sz)"
  note b = colour_pct_on_grid [OF assms p, of "''b''"]
  note w = colour_pct_on_grid [OF assms p, of "''w''"]
  show "\<exists>v. point_influence (stones_of ''b'' occupied) (stones_of ''w'' occupied) p = Inr v"
    by (simp only: point_influence_eq b w sum.case) blast
qed

subsection \<open>A stone far off the grid: the conversion of the distance overflows\<close>

lemma grid_points_1: "grid_points 1 = [(0, 0)]"
  by code_simp

lemma float_of_int_2_1024: "float_of_int (2 ^ 1024) = Inl OverflowError"
  using b64_round_2_1024 by (simp add: float_of_int_def)

lemma compute_influence_overflow:
  "compute_influence [(''b'', (2 ^ 1024 - 1, 0))] 1 = Inl OverflowError"
proof -
  have "manhattan (0, 0) (2 ^ 1024 - 1, 0) + 1 = 2 ^ 1024"
    by (simp add: manhattan_def)
  then have "pct_of_distance (manhattan (0, 0) (2 ^ 1024 - 1, 0)) = Inl OverflowError"
    by (simp only: pct_of_distance_def float_of_int_2_1024 sum.case)
  then show ?thesis
    by (simp add: compute_influence_eq stones_of_def grid_points_1 point_influence_single_black)
qed

subsection \<open>Exchanging the colours\<close>

lemma stones_of_swap_colours:
  "stones_of ''b'' (swap_colours occupied) = stones_of ''w'' occupied"
  "stones_of ''w'' (swap_colours occupied) = stones_of ''b'' occupied"
  by (induction occupied) (auto simp: stones_of_def swap_colours_def)

lemma colour_from_percentages_swap:
  "colour_from_percentages b a = (case colour_from_percentages a b of (r, g, bl) \<Rightarrow> (g, r, bl))"
  by (simp add: colour_from_percentages_def Let_def)

lemma point_influence_swap:
  "point_influence ws bs p = map_sum id swap_value (point_influence bs ws p)"
proof (cases "colour_pct bs p")
  case (Inl e)
  then have e: "e = OverflowError" by (rule colour_pct_Inl)
  show ?thesis
  proof (cases "colour_pct ws p")
    case (Inl e')
    with colour_pct_Inl [OF Inl] \<open>colour_pct bs p = Inl e\<close> e show ?thesis
      by (simp add: point_influence_eq)
  next
    case (Inr b)
    with \<open>colour_pct bs p = Inl e\<close> e show ?thesis
      by (simp add: point_influence_eq)
  qed
next
  case (Inr a)
  show ?thesis
  proof (cases "colour_pct ws p")
    case (Inl e')
    with Inr show ?thesis by (simp add: point_influence_eq)
  next
    case (Inr b)
    with \<open>colour_pct bs p = Inr a\<close> show ?thesis
      by (simp add: point_influence_eq swap_value_def colour_from_percentages_swap [of b a]
          split: prod.splits)
  qed
qed

lemma update_swap_entry:
  "AList.update p (swap_value v) (map swap_entry acc) = map swap_entry (AList.update p v acc)"
  by (induction acc) (simp_all add: swap_entry_def)

lemma influence_loop_swap:
  "influence_loop ws bs pts (map swap_entry acc)
     = map_sum id (map swap_entry) (influence_loop bs ws pts acc)"
proof (induction pts arbitrary: acc)
  case Nil
  show ?case by simp
next
  case (Cons pt pts)
  show ?case
  proof (cases "point_influence bs ws pt")
    case (Inl e)
    then show ?thesis by (simp add: point_influence_swap [of ws bs pt])
  next
    case (Inr v)
    then show ?thesis
      by (simp add: point_influence_swap [of ws bs pt] update_swap_entry Cons.IH)
  qed
qed

lemma colour_blue_zero: "colour_from_percentages a b = (r, g, bl) \<Longrightarrow> bl = 0"
  by (simp add: colour_from_percentages_def Let_def)

subsection \<open>A board without stones\<close>

lemma update_fresh:
  assumes "k \<notin> fst ` set al"
  shows "AList.update k v al = al @ [(k, v)]"
  using assms by (induction al) auto

lemma influence_loop_const:
  assumes "\<forall>p \<in> set pts. point_influence bs ws p = Inr v"
    and "distinct pts" and "set pts \<inter> fst ` set acc = {}"
  shows "influence_loop bs ws pts acc = Inr (acc @ map (\<lambda>p. (p, v)) pts)"
  using assms
proof (induction pts arbitrary: acc)
  case Nil
  show ?case by simp
next
  case (Cons pt pts)
  from Cons.prems have fresh: "pt \<notin> fst ` set acc" by auto
  have "influence_loop bs ws pts (acc @ [(pt, v)]) = Inr ((acc @ [(pt, v)]) @ map (\<lambda>p. (p, v)) pts)"
    using Cons.prems by (intro Cons.IH) auto
  with Cons.prems(1) show ?case
    by (simp add: update_fresh [OF fresh])
qed


section \<open>Further facts used by the claims\<close>

lemma point_influence_no_stones: "point_influence [] [] p = Inr (0, 0, (0, 0, 0))"
  by (simp add: point_influence_eq colour_pct_def colour_0_0)

lemma compute_influence_no_stones:
  assumes "stones_of ''b'' occupied = []" and "stones_of ''w'' occupied = []"
  shows "compute_influence occupied sz = Inr (map (\<lambda>p. (p, 0, 0, (0, 0, 0))) (grid_points sz))"
  using influence_loop_const [of "grid_points sz" "[]" "[]" "(0, 0, (0, 0, 0))" "[]"]
  by (simp add: compute_influence_eq assms point_influence_no_stones distinct_grid_points)

lemma green_of_100: "py_round (float_mul 100 lit_2_55) = 255"
  by code_simp

lemma colour_green_100: "\<exists>r. colour_from_percentages 100 b = (r, 255, 0)"
  by (simp add: colour_from_percentages_def Let_def green_of_100)

lemma min_distance_stone:
  assumes "p \<in> set stones"
  shows "min_distance stones p = 0"
proof -
  have "manhattan p p = 0" by (simp add: manhattan_def)
  with assms have "0 \<in> manhattan p ` set stones" by force
  then have "min_distance stones p \<le> 0" by (simp add: min_distance_def)
  moreover from assms have "stones \<noteq> []" by auto
  then have "0 \<le> min_distance stones p" by (rule min_distance_nonneg)
  ultimately show ?thesis by simp
qed

lemma min_distance_insert:
  assumes "stones \<noteq> []" and "set stones' = insert s (set stones)"
  shows "min_distance stones' p \<le> min_distance stones p"
  unfolding min_distance_def
  by (rule Min_antimono) (use assms in auto)

lemma colour_pct_value_range:
  assumes "colour_pct stones p = Inr a"
  shows "0 \<le> a \<and> a \<le> 100"
  using colour_pct_Inr [OF assms]
  by (auto simp: pct_value_range min_distance_nonneg)

lemma spec_pct_2: "spec_pct 2 = 100 / 3"
  by (simp add: spec_pct_def)

lemma b64_round_100_3: "b64_round (100 / 3) = 4691249611844267 / 140737488355328"
  by code_simp

lemma lookup_3x3_2_0:
  "lookup_influence [(''b'', (0, 0))] 3 (2, 0) = Some (2345624805922133 / 70368744177664, 0, (0, 85, 0))"
  by (simp add: lookup_influence_def compute_influence_3x3)

lemma lookup_3x3_2_2:
  "lookup_influence [(''b'', (0, 0))] 3 (2, 2) = Some (20, 0, (0, 51, 0))"
  by (simp add: lookup_influence_def compute_influence_3x3)

lemma three_le: "(3::int) \<le> 2 ^ 1022"
proof -
  have "(2::int) ^ 2 \<le> 2 ^ 1022" by (rule power_increasing) simp_all
  then show ?thesis by simp
qed

lemma entry_3x3: "((2, 0), 2345624805922133 / 70368744177664, 0, 0, 85, 0)
  \<in> set [((0, 0), 100, 0, 0, 255, 0),
          ((1, 0), 50, 0, 0, 127, 0),
          ((2, 0), 2345624805922133 / 70368744177664, 0, 0, 85, 0),
          ((0, 1), 50, 0, 0, 127, 0),
          ((1, 1), 2345624805922133 / 70368744177664, 0, 0, 85, 0),
          ((2, 1), 25, 0, 0, 64, 0),
          ((0, 2), 2345624805922133 / 70368744177664, 0, 0, 85, 0),
          ((1, 2), 25, 0, 0, 64, 0),
          ((2, 2), (20::rat), (0::rat), (0::int), (51::int), (0::int))]"
  by simp

lemma grid_points_2: "grid_points 2 = [(0, 0), (1, 0), (0, 1), (1, 1)]"
  by code_simp

lemma compute_influence_map_of:
  assumes "compute_influence occupied sz = Inr m" and "map_of m p = Some v"
  shows "point_influence (stones_of ''b'' occupied) (stones_of ''w'' occupied) p = Inr v"
  using assms(1) map_of_SomeD [OF assms(2)] by (rule compute_influence_entry(2))


lemma map_of_3x3:
  "map_of [((0, 0), 100, 0, 0, 255, 0),
          ((1, 0), 50, 0, 0, 127, 0),
          ((2, 0), 2345624805922133 / 70368744177664, 0, 0, 85, 0),
          ((0, 1), 50, 0, 0, 127, 0),
          ((1, 1), 2345624805922133 / 70368744177664, 0, 0, 85, 0),
          ((2, 1), 25, 0, 0, 64, 0),
          ((0, 2), 2345624805922133 / 70368744177664, 0, 0, 85, 0),
          ((1, 2), 25, 0, 0, 64, 0),
          ((2, 2), 20, 0, 0, 51, 0)] (2::int, 0::int)
     = Some (2345624805922133 / 70368744177664 :: rat, 0::rat, 0::int, 85::int, 0::int)"
  "map_of [((0, 0), 100, 0, 0, 255, 0),
          ((1, 0), 50, 0, 0, 127, 0),
          ((2, 0), 2345624805922133 / 70368744177664, 0, 0, 85, 0),
          ((0, 1), 50, 0, 0, 127, 0),
          ((1, 1), 2345624805922133 / 70368744177664, 0, 0, 85, 0),
          ((2, 1), 25, 0, 0, 64, 0),
          ((0, 2), 2345624805922133 / 70368744177664, 0, 0, 85, 0),
          ((1, 2), 25, 0, 0, 64, 0),
          ((2, 2), 20, 0, 0, 51, 0)] (1::int, 0::int)
     = Some (50::rat, 0::rat, 0::int, 127::int, 0::int)"
  by simp_all

text \<open>
  In exact arithmetic \<open>50 * 2.55 = 127.5\<close> rounds to 128; the float \<^verbatim>\<open>2.55\<close> lies below
  \<open>255 / 100\<close>, the float product is below \<open>127.5\<close>, and the program gives 127
  (\<open>colour_50_0\<close>).
\<close>

lemma exact_product_rounds_up: "round_half_even (50 * (255 / 100)) = 128"
  by code_simp

lemma lit_2_55_below: "lit_2_55 < 255 / 100"
  by code_simp

subsection \<open>Rounding to an integer, and the float 2.55\<close>

lemma round_half_even_nearest_int: "round_half_even q = nearest_int q"
proof -
  let ?f = "\<lfloor>q\<rfloor>"
  have f: "of_int ?f \<le> q" "q < of_int ?f + 1" by linarith+
  consider "q - of_int ?f < 1 / 2" | "1 / 2 < q - of_int ?f" | "q - of_int ?f = 1 / 2"
    by linarith
  then show ?thesis
  proof cases
    case 1
    then have "\<lfloor>q + 1 / 2\<rfloor> = ?f" using f by linarith
    moreover have "of_int ?f \<noteq> q + 1 / 2" using 1 f by linarith
    ultimately show ?thesis using 1
      by (simp add: round_half_even_def nearest_int_def Let_def)
  next
    case 2
    then have "\<lfloor>q + 1 / 2\<rfloor> = ?f + 1" using f by linarith
    moreover have "of_int (?f + 1) \<noteq> q + 1 / 2" using 2 by simp
    ultimately show ?thesis using 2
      by (simp add: round_half_even_def nearest_int_def Let_def)
  next
    case 3
    then have e: "q + 1 / 2 = of_int (?f + 1)" by simp
    then have "\<lfloor>q + 1 / 2\<rfloor> = ?f + 1" by (simp only: floor_of_int)
    with 3 e show ?thesis
      by (simp add: round_half_even_def nearest_int_def Let_def)
  qed
qed

lemma lit_2_55_value: "lit_2_55 = double_2_55"
  by code_simp

lemma colour_from_percentages_blend_float:
  "colour_from_percentages pctA pctB = blend_float pctA pctB"
  by (simp add: colour_from_percentages_def blend_float_def Let_def clamp_max_min
      py_round_def float_mul_def round_half_even_nearest_int lit_2_55_value)

lemma b64_round_minus: "b64_round (- q) = - b64_round q"
  by (simp add: b64_round_def ulp_exp_def Let_def)

lemma b64_round_abs: "\<bar>b64_round q\<bar> = b64_round \<bar>q\<bar>"
proof (cases "0 \<le> q")
  case True
  then show ?thesis by (simp add: b64_round_nonneg)
next
  case False
  then have "0 \<le> b64_round (- q)" by (intro b64_round_nonneg) simp
  with False show ?thesis by (simp add: b64_round_minus)
qed

lemma b64_round_finite:
  assumes "\<bar>q\<bar> \<le> 2 ^ 1023"
  shows "\<bar>b64_round q\<bar> < 2 ^ 1024"
proof -
  have "b64_round \<bar>q\<bar> \<le> b64_round (2 ^ 1023)"
    using assms by (intro b64_round_mono) simp_all
  also have "\<dots> = 2 ^ 1023" by (rule b64_round_2_1023)
  also have "\<dots> < (2::rat) ^ 1024" by (rule power_strict_increasing) simp_all
  finally show ?thesis by (simp only: b64_round_abs)
qed

lemma double_2_55_le_4: "\<bar>double_2_55\<bar> \<le> 4"
  by (simp add: double_2_55_def)

lemma product_finite:
  assumes "\<bar>pct\<bar> \<le> 2 ^ 1021"
  shows "\<bar>b64_round (pct * double_2_55)\<bar> < 2 ^ 1024"
proof (rule b64_round_finite)
  have "\<bar>pct * double_2_55\<bar> = \<bar>pct\<bar> * \<bar>double_2_55\<bar>" by (rule abs_mult)
  also have "\<dots> \<le> 2 ^ 1021 * 4"
    using assms double_2_55_le_4 by (intro mult_mono) simp_all
  also have "\<dots> = (2::rat) ^ 1023" by simp
  finally show "\<bar>pct * double_2_55\<bar> \<le> 2 ^ 1023" .
qed

lemma colour_101_m5: "colour_from_percentages 101 (- 5) = (0, 255, 0)"
  by code_simp

lemma blend_50_0: "blend 50 0 = (0, 128, 0)"
  by code_simp

lemma round_50: "round (50 * (255 / 100) :: rat) = 128"
  by (simp add: round_def)

lemma nearest_int_50: "nearest_int (50 * (255 / 100)) = 128"
  by code_simp

lemma small_abs_le: "\<bar>x\<bar> \<le> 101 \<Longrightarrow> \<bar>x::rat\<bar> \<le> 2 ^ 1021"
proof -
  assume "\<bar>x\<bar> \<le> 101"
  moreover have "(2::rat) ^ 7 \<le> 2 ^ 1021" by (rule power_increasing) simp_all
  ultimately show ?thesis by simp
qed

lemma blend_float_101_m5: "blend_float 101 (- 5) = (0, 255, 0)"
  by code_simp

subsection \<open>The accuracy of a channel\<close>

lemma b64_round_half_ulp:
  assumes "0 < q"
  shows "\<bar>b64_round q - q\<bar> \<le> 2 powi ulp_exp q / 2"
proof -
  let ?e = "ulp_exp q"
  let ?n = "round_half_even (q / 2 powi ?e)"
  have p: "(0::rat) < 2 powi ?e" by simp
  from round_half_even_bounds [of "q / 2 powi ?e"]
  have "\<bar>of_int ?n - q / 2 powi ?e\<bar> \<le> 1 / 2" by linarith
  then have "\<bar>of_int ?n - q / 2 powi ?e\<bar> * 2 powi ?e \<le> 1 / 2 * 2 powi ?e"
    using p by (intro mult_right_mono) simp_all
  moreover have "\<bar>of_int ?n - q / 2 powi ?e\<bar> * 2 powi ?e = \<bar>of_int ?n * 2 powi ?e - q\<bar>"
  proof -
    have "\<bar>of_int ?n - q / 2 powi ?e\<bar> * 2 powi ?e
        = \<bar>(of_int ?n - q / 2 powi ?e) * 2 powi ?e\<bar>"
      using p by (simp add: abs_mult)
    also have "(of_int ?n - q / 2 powi ?e) * 2 powi ?e = of_int ?n * 2 powi ?e - q"
      using p by (simp add: left_diff_distrib)
    finally show ?thesis .
  qed
  ultimately show ?thesis
    by (simp add: b64_round_pos [OF assms])
qed

lemma ulp_exp_below_256:
  assumes "0 < q" and "q < 256"
  shows "ulp_exp q \<le> - 45"
proof -
  have "2 powi ilog2 q \<le> q" using ilog2_bounds [OF assms(1)] by simp
  with assms(2) have "2 powi ilog2 q < (2::rat) powi 8" by simp
  then have "ilog2 q < 8" by (rule powi2_less_imp)
  with assms(1) show ?thesis by (simp add: ulp_exp_def)
qed

lemma b64_round_error_below_256:
  assumes "0 \<le> q" and "q < 256"
  shows "\<bar>b64_round q - q\<bar> \<le> 1 / 2 ^ 46"
proof (cases "q = 0")
  case True
  then show ?thesis by simp
next
  case False
  with assms have q: "0 < q" by simp
  have "(2::rat) powi ulp_exp q \<le> 2 powi (- 45)"
    using ulp_exp_below_256 [OF q assms(2)] by (intro power_int_increasing) simp_all
  also have "\<dots> = 1 / 2 ^ 45" by (simp add: power_int_minus_divide)
  finally have "2 powi ulp_exp q / 2 \<le> 1 / 2 ^ 45 / (2::rat)" by simp
  also have "\<dots> = 1 / 2 ^ 46" by simp
  finally show ?thesis using b64_round_half_ulp [OF q] by linarith
qed

lemma double_2_55_error: "\<bar>double_2_55 - 255 / 100\<bar> \<le> 1 / 2 ^ 52"
  by (simp add: double_2_55_def)

lemma double_2_55_bounds: "0 \<le> double_2_55" "double_2_55 \<le> 255 / 100"
  by (simp_all add: double_2_55_def)

lemma channel_accuracy:
  assumes "0 \<le> pct" and "pct \<le> 100"
  shows "\<bar>of_int (nearest_int (b64_round (pct * double_2_55))) - pct * (255 / 100)\<bar>
      \<le> 1 / 2 + 1 / 2 ^ 44"
proof -
  let ?x = "pct * double_2_55"
  let ?y = "b64_round ?x"
  have x0: "0 \<le> ?x" using assms(1) double_2_55_bounds(1) by simp
  have "?x \<le> 100 * (255 / 100)"
    using assms double_2_55_bounds by (intro mult_mono) simp_all
  then have x1: "?x < 256" by simp
  have 1: "\<bar>?y - ?x\<bar> \<le> 1 / 2 ^ 46" using x0 x1 by (rule b64_round_error_below_256)
  have "\<bar>?x - pct * (255 / 100)\<bar> = \<bar>pct\<bar> * \<bar>double_2_55 - 255 / 100\<bar>"
    by (simp add: abs_mult [symmetric] right_diff_distrib)
  also have "\<dots> \<le> 100 * (1 / 2 ^ 52)"
    using assms double_2_55_error by (intro mult_mono) simp_all
  also have "\<dots> \<le> 1 / 2 ^ 45" by simp
  finally have 2: "\<bar>?x - pct * (255 / 100)\<bar> \<le> 1 / 2 ^ 45" .
  have 3: "\<bar>of_int (nearest_int ?y) - ?y\<bar> \<le> 1 / 2"
    using round_half_even_bounds [of ?y] by (simp only: round_half_even_nearest_int) linarith
  have "(1::rat) / 2 ^ 46 + 1 / 2 ^ 45 \<le> 1 / 2 ^ 44" by simp
  with 1 2 3 show ?thesis by linarith
qed

lemma b64_round_100_double: "b64_round (100 * double_2_55) \<le> 255"
  by code_simp

lemma channel_unclamped:
  assumes "0 \<le> pct" and "pct \<le> 100"
  shows "clamp (nearest_int (b64_round (pct * double_2_55))) 0 255
      = nearest_int (b64_round (pct * double_2_55))"
proof -
  let ?y = "b64_round (pct * double_2_55)"
  have x0: "0 \<le> pct * double_2_55" using assms(1) double_2_55_bounds(1) by simp
  then have "of_int 0 \<le> ?y" by (simp add: b64_round_nonneg)
  then have lo: "0 \<le> round_half_even ?y" by (rule round_half_even_ge)
  have "pct * double_2_55 \<le> 100 * double_2_55"
    using assms double_2_55_bounds(1) by (intro mult_right_mono) simp_all
  with x0 have "?y \<le> b64_round (100 * double_2_55)" by (intro b64_round_mono)
  with b64_round_100_double have "?y \<le> of_int 255" by simp
  then have hi: "round_half_even ?y \<le> 255" by (rule round_half_even_le)
  from lo hi show ?thesis
    by (simp add: clamp_def round_half_even_nearest_int)
qed

subsection \<open>A board with one white stone\<close>

lemma point_influence_single_white:
  "point_influence [] [s] p =
     (case pct_of_distance (manhattan p s) of
        Inl e \<Rightarrow> Inl e
      | Inr b \<Rightarrow> Inr (0, b, colour_from_percentages 0 b))"
  by (simp add: point_influence_eq colour_pct_def cong: sum.case_cong)

lemma colour_0_100: "colour_from_percentages 0 100 = (255, 0, 0)"
  by code_simp

lemma colour_0_50: "colour_from_percentages 0 50 = (127, 0, 0)"
  by code_simp

lemma colour_0_33: "colour_from_percentages 0 (2345624805922133 / 70368744177664) = (85, 0, 0)"
  by code_simp

lemma colour_0_25: "colour_from_percentages 0 25 = (64, 0, 0)"
  by code_simp

lemma colour_0_20: "colour_from_percentages 0 20 = (51, 0, 0)"
  by code_simp

lemma compute_influence_3x3_white:
  "compute_influence [(''w'', (0, 0))] 3 =
     Inr [((0, 0), 0, 100, 255, 0, 0),
          ((1, 0), 0, 50, 127, 0, 0),
          ((2, 0), 0, 2345624805922133 / 70368744177664, 85, 0, 0),
          ((0, 1), 0, 50, 127, 0, 0),
          ((1, 1), 0, 2345624805922133 / 70368744177664, 85, 0, 0),
          ((2, 1), 0, 25, 64, 0, 0),
          ((0, 2), 0, 2345624805922133 / 70368744177664, 85, 0, 0),
          ((1, 2), 0, 25, 64, 0, 0),
          ((2, 2), 0, 20, 51, 0, 0)]"
  by (simp add: compute_influence_eq stones_of_def grid_points_3 point_influence_single_white
      manhattan_def pct_of_distance_0 pct_of_distance_1 pct_of_distance_2 pct_of_distance_3
      pct_of_distance_4 colour_0_100 colour_0_50 colour_0_33 colour_0_25 colour_0_20)

lemma map_of_3x3_white:
  "map_of [((0, 0), 0, 100, 255, 0, 0),
          ((1, 0), 0, 50, 127, 0, 0),
          ((2, 0), 0, 2345624805922133 / 70368744177664, 85, 0, 0),
          ((0, 1), 0, 50, 127, 0, 0),
          ((1, 1), 0, 2345624805922133 / 70368744177664, 85, 0, 0),
          ((2, 1), 0, 25, 64, 0, 0),
          ((0, 2), 0, 2345624805922133 / 70368744177664, 85, 0, 0),
          ((1, 2), 0, 25, 64, 0, 0),
          ((2, 2), 0, 20, 51, 0, 0)] (2::int, 0::int)
     = Some (0::rat, 2345624805922133 / 70368744177664 :: rat, 85::int, 0::int, 0::int)"
  by simp

lemma on_grid_one_black: "on_grid 3 [(''b'', (0, 0))]"
  by (simp add: on_grid_def)

lemma on_grid_one_white: "on_grid 3 [(''w'', (0, 0))]"
  by (simp add: on_grid_def)

subsection \<open>Boards with two stones of one colour\<close>

lemma min_distance_two: "min_distance [s, t] p = min (manhattan p s) (manhattan p t)"
  by (simp add: min_distance_def)

lemma on_grid_two_black: "on_grid 3 [(''b'', (0, 0)), (''b'', (2, 1))]"
  by (simp add: on_grid_def)

lemma on_grid_two_white: "on_grid 3 [(''w'', (0, 0)), (''w'', (2, 1))]"
  by (simp add: on_grid_def)

lemma point_two_black:
  "point_influence (stones_of ''b'' [(''b'', (0, 0)), (''b'', (2, 1))])
     (stones_of ''w'' [(''b'', (0, 0)), (''b'', (2, 1))]) (2, 0) = Inr (50, 0, (0, 127, 0))"
  by (simp add: stones_of_def point_influence_eq colour_pct_def min_distance_two manhattan_def
      pct_of_distance_1 colour_50_0)

lemma point_two_white:
  "point_influence (stones_of ''b'' [(''w'', (0, 0)), (''w'', (2, 1))])
     (stones_of ''w'' [(''w'', (0, 0)), (''w'', (2, 1))]) (2, 0) = Inr (0, 50, (127, 0, 0))"
  by (simp add: stones_of_def point_influence_eq colour_pct_def min_distance_two manhattan_def
      pct_of_distance_1 colour_0_50)

lemma in_grid_3: "(2, 0) \<in> set (grid_points 3)"
  by (simp add: set_grid_points)

lemma two_black_stones:
  "\<exists>m'. compute_influence [(''b'', (0, 0)), (''b'', (2, 1))] 3 = Inr m'
      \<and> map_of m' (2, 0) = Some (50, 0, (0, 127, 0))"
proof -
  from compute_influence_returns [OF on_grid_two_black three_le] obtain m' where
    m': "compute_influence [(''b'', (0, 0)), (''b'', (2, 1))] 3 = Inr m'" by blast
  from compute_influence_lookup [OF m' in_grid_3] point_two_black
  have "map_of m' (2, 0) = Some (50, 0, (0, 127, 0))" by simp
  with m' show ?thesis by blast
qed

lemma two_white_stones:
  "\<exists>m'. compute_influence [(''w'', (0, 0)), (''w'', (2, 1))] 3 = Inr m'
      \<and> map_of m' (2, 0) = Some (0, 50, (127, 0, 0))"
proof -
  from compute_influence_returns [OF on_grid_two_white three_le] obtain m' where
    m': "compute_influence [(''w'', (0, 0)), (''w'', (2, 1))] 3 = Inr m'" by blast
  from compute_influence_lookup [OF m' in_grid_3] point_two_white
  have "map_of m' (2, 0) = Some (0, 50, (127, 0, 0))" by simp
  with m' show ?thesis by blast
qed

section \<open>The claims\<close>

text \<open>
  In the statements below a board is the list \<open>occupied\<close> of its stones, colour A is black
  (\<^verbatim>\<open>"b"\<close>) and colour B is white (\<^verbatim>\<open>"w"\<close>), and the map returned by
  \<^const>\<open>compute_influence\<close> is \<open>m\<close>. A map is returned for every board whose stones lie
  on the grid, up to the size \<open>2 ^ 1022\<close> (\<open>compute_influence_returns\<close>); a stone at a
  distance of \<open>2 ^ 1024 - 1\<close> makes the conversion of the distance to a float raise
  \<^verbatim>\<open>OverflowError\<close> (\<open>compute_influence_overflow\<close>).
\<close>

subsection \<open>C1: the percentages of a point\<close>

text \<open>
  C1, as the program computes it. For every board and every point \<open>(col, row)\<close> of the
  \<open>sz \<times> sz\<close> grid, the entry of the point holds the percentage \<open>pctA\<close>, which is \<open>0\<close>
  when there is no black stone and otherwise the float value of
  \<^verbatim>\<open>1.0 / (dA + 1) * 100.0\<close>, where \<open>dA\<close> is the minimum over the black stones \<open>(c, r)\<close> of
  the Manhattan distance \<open>\<bar>col - c\<bar> + \<bar>row - r\<bar>\<close>, an exact integer; symmetrically \<open>pctB\<close>
  from the white stones; and the colour blended from the two. The float value
  \<^const>\<open>pct_value\<close> rounds the quotient \<open>1 / (dA + 1)\<close> and then the product by \<open>100\<close>: it
  is not always \<open>100 / (dA + 1)\<close>, nor the float nearest to it.
\<close>

theorem compute_influence_percentages:
  assumes "compute_influence occupied sz = Inr m"
    and "0 \<le> col" "col < sz" "0 \<le> row" "row < sz"
  shows "\<exists>pctA pctB.
      map_of m (col, row) = Some (pctA, pctB, colour_from_percentages pctA pctB)
    \<and> pctA = (if stones_of ''b'' occupied = [] then 0
              else pct_value (Min ((\<lambda>(c, r). \<bar>col - c\<bar> + \<bar>row - r\<bar>) ` set (stones_of ''b'' occupied))))
    \<and> pctB = (if stones_of ''w'' occupied = [] then 0
              else pct_value (Min ((\<lambda>(c, r). \<bar>col - c\<bar> + \<bar>row - r\<bar>) ` set (stones_of ''w'' occupied))))"
proof -
  have "(col, row) \<in> set (grid_points sz)"
    using assms(2-5) by (simp add: set_grid_points)
  from compute_influence_lookup [OF assms(1) this] obtain v where
    v: "point_influence (stones_of ''b'' occupied) (stones_of ''w'' occupied) (col, row) = Inr v"
    and m: "map_of m (col, row) = Some v" by blast
  have d: "min_distance stones (col, row) = Min ((\<lambda>(c, r). \<bar>col - c\<bar> + \<bar>row - r\<bar>) ` set stones)"
    for stones
    unfolding min_distance_def
    by (rule arg_cong [where f = Min], rule image_cong) (auto simp: manhattan_def)
  from point_influence_Inr [OF v] m show ?thesis
    by (simp only: d) blast
qed

text \<open>
  The claim as stated, \<open>pctA = 100 / (dA + 1)\<close>, fails on the \<open>3 \<times> 3\<close> board with one black
  stone at \<open>(0, 0)\<close>: at the point \<open>(2, 0)\<close> the distance is 2 and the program computes
  \<open>2345624805922133 / 2 ^ 46\<close> (printed \<^verbatim>\<open>33.33333333333333\<close>), which is neither \<open>100 / 3\<close>
  nor the float nearest to \<open>100 / 3\<close> (printed \<^verbatim>\<open>33.333333333333336\<close>).
\<close>

theorem pct_not_spec_quotient:
  "lookup_influence [(''b'', (0, 0))] 3 (2, 0)
       = Some (2345624805922133 / 70368744177664, 0, (0, 85, 0))
   \<and> stones_of ''b'' [(''b'', (0, 0))] = [(0, 0)]
   \<and> min_distance [(0, 0)] (2, 0) = 2
   \<and> 2345624805922133 / 70368744177664 \<noteq> spec_pct 2
   \<and> 2345624805922133 / 70368744177664 \<noteq> b64_round (spec_pct 2)"
  by (simp add: lookup_3x3_2_0 stones_of_def manhattan_def spec_pct_2 b64_round_100_3)

text \<open>The theorem at that board and point.\<close>

theorem compute_influence_percentages_witness:
  "compute_influence [(''b'', (0, 0))] 3 =
     Inr [((0, 0), 100, 0, 0, 255, 0),
          ((1, 0), 50, 0, 0, 127, 0),
          ((2, 0), 2345624805922133 / 70368744177664, 0, 0, 85, 0),
          ((0, 1), 50, 0, 0, 127, 0),
          ((1, 1), 2345624805922133 / 70368744177664, 0, 0, 85, 0),
          ((2, 1), 25, 0, 0, 64, 0),
          ((0, 2), 2345624805922133 / 70368744177664, 0, 0, 85, 0),
          ((1, 2), 25, 0, 0, 64, 0),
          ((2, 2), 20, 0, 0, 51, 0)]
   \<and> (0::int) \<le> 2 \<and> (2::int) < 3 \<and> (0::int) \<le> 0 \<and> (0::int) < 3
   \<and> pct_value (Min ((\<lambda>(c, r). \<bar>2 - c\<bar> + \<bar>0 - r\<bar>) ` set (stones_of ''b'' [(''b'', (0, 0))])))
       = 2345624805922133 / 70368744177664"
  using compute_influence_percentages [OF compute_influence_3x3, of 2 0]
  by (simp add: compute_influence_3x3 stones_of_def)

subsection \<open>C2: the blended colour\<close>

text \<open>
  C2, as the program computes it. For every pair of floats \<open>pctA\<close> and \<open>pctB\<close> of magnitude
  up to \<open>2 ^ 1021\<close>, the products by the float \<^verbatim>\<open>2.55\<close> are finite and \<open>blend\<close>, in the
  program \<^verbatim>\<open>colour_from_percentages\<close> with colour A black, shown as green, and colour B
  white, shown as red, returns the triple with red \<open>= clamp(round(pctB * 2.55), 0, 255)\<close>,
  green \<open>= clamp(round(pctA * 2.55), 0, 255)\<close> and blue \<open>= 0\<close>, where \<open>2.55\<close> is the float
  \<open>2871044762448691 / 2 ^ 50\<close>, the product is rounded to binary64, and \<open>round\<close> takes
  that float to the nearest integer, ties to even (\<^const>\<open>blend_float\<close>, whose \<open>clamp\<close>
  and \<open>round\<close> are not those of the program's model). The result depends on the two
  arguments only. For percentages in \<open>[0, 100]\<close> the clamp does not act and each channel
  is within \<open>1 / 2 + 2 ^ - 44\<close> of the exact product \<open>pct * 255 / 100\<close>: it is the rounding
  of the exact product except next to a tie.
\<close>

theorem colour_from_percentages_float_blend:
  assumes "\<bar>pctA\<bar> \<le> 2 ^ 1021" and "\<bar>pctB\<bar> \<le> 2 ^ 1021"
  shows "\<bar>b64_round (pctA * double_2_55)\<bar> < 2 ^ 1024
       \<and> \<bar>b64_round (pctB * double_2_55)\<bar> < 2 ^ 1024
       \<and> colour_from_percentages pctA pctB = blend_float pctA pctB
       \<and> (0 \<le> pctA \<and> pctA \<le> 100 \<and> 0 \<le> pctB \<and> pctB \<le> 100 \<longrightarrow>
            (\<exists>red green. colour_from_percentages pctA pctB = (red, green, 0)
               \<and> \<bar>of_int red - pctB * (255 / 100)\<bar> \<le> 1 / 2 + 1 / 2 ^ 44
               \<and> \<bar>of_int green - pctA * (255 / 100)\<bar> \<le> 1 / 2 + 1 / 2 ^ 44))"
proof (intro conjI impI)
  show "\<bar>b64_round (pctA * double_2_55)\<bar> < 2 ^ 1024"
    using assms(1) by (rule product_finite)
  show "\<bar>b64_round (pctB * double_2_55)\<bar> < 2 ^ 1024"
    using assms(2) by (rule product_finite)
  show "colour_from_percentages pctA pctB = blend_float pctA pctB"
    by (rule colour_from_percentages_blend_float)
next
  assume r: "0 \<le> pctA \<and> pctA \<le> 100 \<and> 0 \<le> pctB \<and> pctB \<le> 100"
  then have a: "0 \<le> pctA" "pctA \<le> 100" and b: "0 \<le> pctB" "pctB \<le> 100" by simp_all
  have "colour_from_percentages pctA pctB
      = (nearest_int (b64_round (pctB * double_2_55)),
         nearest_int (b64_round (pctA * double_2_55)), 0)"
    by (simp only: colour_from_percentages_blend_float blend_float_def
        channel_unclamped [OF a] channel_unclamped [OF b])
  with channel_accuracy [OF a] channel_accuracy [OF b]
  show "\<exists>red green. colour_from_percentages pctA pctB = (red, green, 0)
      \<and> \<bar>of_int red - pctB * (255 / 100)\<bar> \<le> 1 / 2 + 1 / 2 ^ 44
      \<and> \<bar>of_int green - pctA * (255 / 100)\<bar> \<le> 1 / 2 + 1 / 2 ^ 44"
    by blast
qed

text \<open>
  The claim as stated, read in exact arithmetic (\<^const>\<open>blend\<close>), fails at the
  percentages 50 and 0, which the program computes for every point at distance 1 from
  the nearest black stone when there is no white stone: \<open>50 * 2.55 = 127.5\<close> rounds to
  128, to even as well as upwards, and the program returns 127, since the float
  \<^verbatim>\<open>2.55\<close> lies below \<open>255 / 100\<close> and so does the float product below \<open>127.5\<close>.
\<close>

theorem blend_exact_counterexample:
  "colour_from_percentages 50 0 = (0, 127, 0)
   \<and> blend 50 0 = (0, 128, 0)
   \<and> nearest_int (50 * (255 / 100)) = 128
   \<and> round (50 * (255 / 100) :: rat) = 128"
  using colour_50_0 blend_50_0 nearest_int_50 round_50 by (intro conjI)

text \<open>
  The theorem at the arguments 101 and \<open>- 5\<close>, where both clamps act, and at the
  percentages 50 and 0.
\<close>

theorem colour_from_percentages_float_blend_witness:
  "\<bar>101::rat\<bar> \<le> 2 ^ 1021 \<and> \<bar>- 5::rat\<bar> \<le> 2 ^ 1021
   \<and> colour_from_percentages 101 (- 5) = blend_float 101 (- 5)
   \<and> blend_float 101 (- 5) = (0, 255, 0)
   \<and> \<bar>50::rat\<bar> \<le> 2 ^ 1021 \<and> \<bar>0::rat\<bar> \<le> 2 ^ 1021
   \<and> (0::rat) \<le> 50 \<and> (50::rat) \<le> 100 \<and> (0::rat) \<le> 0 \<and> (0::rat) \<le> 100
   \<and> colour_from_percentages 50 0 = (0, 127, 0)
   \<and> \<bar>of_int 127 - 50 * (255 / 100 :: rat)\<bar> \<le> 1 / 2 + 1 / 2 ^ 44"
proof -
  have h1: "\<bar>101::rat\<bar> \<le> 2 ^ 1021" "\<bar>- 5::rat\<bar> \<le> 2 ^ 1021"
    "\<bar>50::rat\<bar> \<le> 2 ^ 1021" "\<bar>0::rat\<bar> \<le> 2 ^ 1021"
    by (rule small_abs_le, simp)+
  have r: "(0::rat) \<le> 50 \<and> (50::rat) \<le> 100 \<and> (0::rat) \<le> 0 \<and> (0::rat) \<le> 100" by simp
  from colour_from_percentages_float_blend [OF h1(1,2)]
  have a: "colour_from_percentages 101 (- 5) = blend_float 101 (- 5)" by blast
  from colour_from_percentages_float_blend [OF h1(3,4)] r
  obtain red green where "colour_from_percentages 50 0 = (red, green, 0)"
    and "\<bar>of_int green - 50 * (255 / 100 :: rat)\<bar> \<le> 1 / 2 + 1 / 2 ^ 44" by blast
  then have b: "\<bar>of_int 127 - 50 * (255 / 100 :: rat)\<bar> \<le> 1 / 2 + 1 / 2 ^ 44"
    by (simp add: colour_50_0)
  from h1 r a b blend_float_101_m5 colour_50_0 show ?thesis by (intro conjI) simp_all
qed

subsection \<open>C3: the scenario of size 3\<close>

text \<open>
  C3, as the program computes it. For the board of size 3 with one black stone at
  \<open>(0, 0)\<close> and no white stone, the map holds \<open>pctA = 100\<close> at \<open>(0, 0)\<close>, \<open>50\<close> at \<open>(1, 0)\<close>,
  the float \<open>2345624805922133 / 2 ^ 46\<close> at \<open>(2, 0)\<close>, which is \<open>33.33\<close> to two decimal
  places, and \<open>20\<close> at \<open>(2, 2)\<close>, whose distance to the stone is 4; \<open>pctB = 0\<close> at every
  point; and the colour \<open>(0, 255, 0)\<close> at \<open>(0, 0)\<close>.
\<close>

theorem scenario_3x3:
  "compute_influence [(''b'', (0, 0))] 3 =
     Inr [((0, 0), 100, 0, 0, 255, 0),
          ((1, 0), 50, 0, 0, 127, 0),
          ((2, 0), pct_value 2, 0, 0, 85, 0),
          ((0, 1), 50, 0, 0, 127, 0),
          ((1, 1), pct_value 2, 0, 0, 85, 0),
          ((2, 1), 25, 0, 0, 64, 0),
          ((0, 2), pct_value 2, 0, 0, 85, 0),
          ((1, 2), 25, 0, 0, 64, 0),
          ((2, 2), 20, 0, 0, 51, 0)]
   \<and> pct_value 2 = 2345624805922133 / 70368744177664
   \<and> \<bar>pct_value 2 - 3333 / 100\<bar> < 1 / 200"
  by (simp add: compute_influence_3x3 pct_value_2)

text \<open>
  The claim as stated fails at \<open>(2, 2)\<close>, where the program computes 20 and not 25, and
  at \<open>(2, 0)\<close>, where the percentage is not \<open>33.33\<close> exactly.
\<close>

theorem scenario_3x3_counterexample:
  "lookup_influence [(''b'', (0, 0))] 3 (2, 2) = Some (20, 0, (0, 51, 0))
   \<and> (20::rat) \<noteq> 25
   \<and> lookup_influence [(''b'', (0, 0))] 3 (2, 0)
       = Some (2345624805922133 / 70368744177664, 0, (0, 85, 0))
   \<and> (2345624805922133 / 70368744177664 :: rat) \<noteq> 3333 / 100"
  by (simp add: lookup_3x3_2_0 lookup_3x3_2_2)

subsection \<open>C4: one entry for each point\<close>

text \<open>
  C4. For every board and every size \<open>sz \<ge> 1\<close>, the map returned by
  \<^const>\<open>compute_influence\<close> has exactly one entry for each of the \<open>sz * sz\<close> points of
  the grid, whatever the stones: its keys are distinct, they are the points of the grid,
  and there are \<open>sz * sz\<close> entries. A map is returned when the stones lie on the grid and
  \<open>sz \<le> 2 ^ 1022\<close>.
\<close>

theorem influence_map_one_entry_per_point:
  assumes "1 \<le> sz"
  shows "(\<forall>m. compute_influence occupied sz = Inr m \<longrightarrow>
            distinct (map fst m)
          \<and> set (map fst m) = {0..sz - 1} \<times> {0..sz - 1}
          \<and> length m = nat (sz * sz))
       \<and> (on_grid sz occupied \<and> sz \<le> 2 ^ 1022 \<longrightarrow> (\<exists>m. compute_influence occupied sz = Inr m))"
proof (intro conjI allI impI)
  fix m
  assume m: "compute_influence occupied sz = Inr m"
  show d: "distinct (map fst m)" using m by (rule compute_influence_keys)
  show s: "set (map fst m) = {0..sz - 1} \<times> {0..sz - 1}"
    using compute_influence_keys(2) [OF m] by (simp only: set_grid_points)
  have "length m = length (map fst m)" by simp
  also have "\<dots> = card (set (map fst m))" using d by (simp only: distinct_card)
  also have "\<dots> = card (set (grid_points sz))"
    by (simp only: compute_influence_keys(2) [OF m])
  also have "\<dots> = length (grid_points sz)"
    using distinct_grid_points by (rule distinct_card)
  also have "\<dots> = nat (sz * sz)"
    using assms by (simp add: length_grid_points nat_mult_distrib)
  finally show "length m = nat (sz * sz)" .
next
  assume "on_grid sz occupied \<and> sz \<le> 2 ^ 1022"
  then show "\<exists>m. compute_influence occupied sz = Inr m"
    by (intro compute_influence_returns) simp_all
qed

text \<open>The theorem at the board of size 3 with one black stone.\<close>

theorem influence_map_one_entry_per_point_witness:
  "(1::int) \<le> 3
   \<and> on_grid 3 [(''b'', (0, 0))] \<and> (3::int) \<le> 2 ^ 1022
   \<and> (\<exists>m. compute_influence [(''b'', (0, 0))] 3 = Inr m
          \<and> distinct (map fst m)
          \<and> set (map fst m) = {0..3 - 1} \<times> {0..3 - 1}
          \<and> length m = nat (3 * 3))"
proof -
  have h: "(1::int) \<le> 3" by simp
  have g: "on_grid 3 [(''b'', (0, 0))]" by (simp add: on_grid_def)
  note t = influence_map_one_entry_per_point [OF h, of "[(''b'', (0, 0))]"]
  from t g three_le obtain m where m: "compute_influence [(''b'', (0, 0))] 3 = Inr m"
    by blast
  with t have "distinct (map fst m) \<and> set (map fst m) = {0..3 - 1} \<times> {0..3 - 1}
      \<and> length m = nat (3 * 3)"
    by blast
  with h g three_le m show ?thesis by blast
qed

subsection \<open>C5: the range of the percentages\<close>

text \<open>
  C5. For every board and every point, the two percentages \<open>pctA\<close> and \<open>pctB\<close> of the entry
  of the point lie in the closed interval \<open>[0, 100]\<close>.
\<close>

theorem percentages_in_range:
  assumes "compute_influence occupied sz = Inr m"
    and "(p, pctA, pctB, colour) \<in> set m"
  shows "0 \<le> pctA \<and> pctA \<le> 100 \<and> 0 \<le> pctB \<and> pctB \<le> 100"
proof -
  from compute_influence_entry(2) [OF assms]
  have "point_influence (stones_of ''b'' occupied) (stones_of ''w'' occupied) p
      = Inr (pctA, pctB, colour)" .
  then have "colour_pct (stones_of ''b'' occupied) p = Inr pctA"
    and "colour_pct (stones_of ''w'' occupied) p = Inr pctB"
    by (auto simp: point_influence_eq split: sum.splits)
  then show ?thesis
    using colour_pct_value_range by blast
qed

text \<open>The theorem at the point \<open>(2, 0)\<close> of the board of size 3 with one black stone.\<close>

theorem percentages_in_range_witness:
  "compute_influence [(''b'', (0, 0))] 3 =
     Inr [((0, 0), 100, 0, 0, 255, 0),
          ((1, 0), 50, 0, 0, 127, 0),
          ((2, 0), 2345624805922133 / 70368744177664, 0, 0, 85, 0),
          ((0, 1), 50, 0, 0, 127, 0),
          ((1, 1), 2345624805922133 / 70368744177664, 0, 0, 85, 0),
          ((2, 1), 25, 0, 0, 64, 0),
          ((0, 2), 2345624805922133 / 70368744177664, 0, 0, 85, 0),
          ((1, 2), 25, 0, 0, 64, 0),
          ((2, 2), 20, 0, 0, 51, 0)]
   \<and> (0::rat) \<le> 2345624805922133 / 70368744177664
   \<and> (2345624805922133 / 70368744177664 :: rat) \<le> 100"
  using percentages_in_range [OF compute_influence_3x3 entry_3x3]
  by (simp add: compute_influence_3x3)

subsection \<open>C6: the point of a stone\<close>

text \<open>
  C6. For every point \<open>(col, row)\<close> of the grid that holds a stone of colour A (black),
  \<open>pctA = 100\<close> exactly and the green channel of the blended colour is 255. The theorem
  does not need the absence of a stone of colour B at that point.
\<close>

theorem stone_point_full_influence:
  assumes "compute_influence occupied sz = Inr m"
    and "0 \<le> col" "col < sz" "0 \<le> row" "row < sz"
    and "(''b'', (col, row)) \<in> set occupied"
  shows "\<exists>pctB red. map_of m (col, row) = Some (100, pctB, (red, 255, 0))"
proof -
  let ?p = "(col, row)"
  have "?p \<in> set (grid_points sz)"
    using assms(2-5) by (simp add: set_grid_points)
  from compute_influence_lookup [OF assms(1) this] obtain v where
    v: "point_influence (stones_of ''b'' occupied) (stones_of ''w'' occupied) ?p = Inr v"
    and m: "map_of m ?p = Some v" by blast
  have s: "?p \<in> set (stones_of ''b'' occupied)"
    using assms(6) by (force simp: stones_of_def)
  then have ne: "stones_of ''b'' occupied \<noteq> []" by auto
  from point_influence_Inr [OF v] ne min_distance_stone [OF s]
  obtain pctB where "v = (100, pctB, colour_from_percentages 100 pctB)"
    by simp
  moreover obtain red where "colour_from_percentages 100 pctB = (red, 255, 0)"
    using colour_green_100 by blast
  ultimately show ?thesis using m by simp
qed

text \<open>The theorem at the stone \<open>(0, 0)\<close> of the board of size 3.\<close>

theorem stone_point_full_influence_witness:
  "compute_influence [(''b'', (0, 0))] 3 =
     Inr [((0, 0), 100, 0, 0, 255, 0),
          ((1, 0), 50, 0, 0, 127, 0),
          ((2, 0), 2345624805922133 / 70368744177664, 0, 0, 85, 0),
          ((0, 1), 50, 0, 0, 127, 0),
          ((1, 1), 2345624805922133 / 70368744177664, 0, 0, 85, 0),
          ((2, 1), 25, 0, 0, 64, 0),
          ((0, 2), 2345624805922133 / 70368744177664, 0, 0, 85, 0),
          ((1, 2), 25, 0, 0, 64, 0),
          ((2, 2), 20, 0, 0, 51, 0)]
   \<and> (0::int) \<le> 0 \<and> (0::int) < 3
   \<and> (''b'', (0, 0)) \<in> set [(''b'', (0::int, 0::int))]
   \<and> (\<exists>pctB red. map_of
          [((0, 0), 100, 0, 0, 255, 0),
           ((1, 0), 50, 0, 0, 127, 0),
           ((2, 0), 2345624805922133 / 70368744177664, 0, 0, 85, 0),
           ((0, 1), 50, 0, 0, 127, 0),
           ((1, 1), 2345624805922133 / 70368744177664, 0, 0, 85, 0),
           ((2, 1), 25, 0, 0, 64, 0),
           ((0, 2), 2345624805922133 / 70368744177664, 0, 0, 85, 0),
           ((1, 2), 25, 0, 0, 64, 0),
           ((2, 2), 20, 0, 0, 51, 0)] (0::int, 0::int)
        = Some (100::rat, pctB, (red::int, 255::int, 0::int)))"
  using stone_point_full_influence [OF compute_influence_3x3, of 0 0]
  by (simp add: compute_influence_3x3)

subsection \<open>C7: a colour without stones\<close>

text \<open>
  C7. A colour without stones is not an error but the case of 0 percent at every point.
  On a board with no stone of either colour \<^const>\<open>compute_influence\<close> returns the map
  that gives every point of the grid the percentages 0 and 0 and the colour \<open>(0, 0, 0)\<close>.
  On a board with no stone of one colour, the stones of the other colour lying on the
  grid and \<open>sz \<le> 2 ^ 1022\<close>, a map is returned, with an entry for every point of the grid.
  And in every map returned, \<open>pctA = 0\<close> in every entry when there is no black stone and
  \<open>pctB = 0\<close> in every entry when there is no white stone.
\<close>

theorem empty_colour_is_zero_percent:
  "(stones_of ''b'' occupied = [] \<and> stones_of ''w'' occupied = [] \<longrightarrow>
      compute_influence occupied sz = Inr (map (\<lambda>p. (p, 0, 0, (0, 0, 0))) (grid_points sz)))
   \<and> ((stones_of ''b'' occupied = [] \<or> stones_of ''w'' occupied = [])
        \<and> on_grid sz occupied \<and> sz \<le> 2 ^ 1022 \<longrightarrow>
      (\<exists>m. compute_influence occupied sz = Inr m
          \<and> set (map fst m) = {0..sz - 1} \<times> {0..sz - 1}))
   \<and> (\<forall>m p pctA pctB colour.
        compute_influence occupied sz = Inr m \<and> (p, pctA, pctB, colour) \<in> set m \<longrightarrow>
          (stones_of ''b'' occupied = [] \<longrightarrow> pctA = 0)
        \<and> (stones_of ''w'' occupied = [] \<longrightarrow> pctB = 0))"
proof (intro conjI allI impI)
  assume "stones_of ''b'' occupied = [] \<and> stones_of ''w'' occupied = []"
  then show "compute_influence occupied sz
      = Inr (map (\<lambda>p. (p, 0, 0, (0, 0, 0))) (grid_points sz))"
    by (intro compute_influence_no_stones) simp_all
next
  assume "(stones_of ''b'' occupied = [] \<or> stones_of ''w'' occupied = [])
      \<and> on_grid sz occupied \<and> sz \<le> 2 ^ 1022"
  then have "on_grid sz occupied" and "sz \<le> 2 ^ 1022" by simp_all
  then obtain m where m: "compute_influence occupied sz = Inr m"
    using compute_influence_returns by blast
  have "set (map fst m) = {0..sz - 1} \<times> {0..sz - 1}"
    using compute_influence_keys(2) [OF m] by (simp only: set_grid_points)
  with m show "\<exists>m. compute_influence occupied sz = Inr m
      \<and> set (map fst m) = {0..sz - 1} \<times> {0..sz - 1}"
    by blast
next
  fix m p pctA pctB colour
  assume a: "compute_influence occupied sz = Inr m \<and> (p, pctA, pctB, colour) \<in> set m"
  then have a1: "compute_influence occupied sz = Inr m"
    and a2: "(p, pctA, pctB, colour) \<in> set m" by simp_all
  have v: "point_influence (stones_of ''b'' occupied) (stones_of ''w'' occupied) p
      = Inr (pctA, pctB, colour)"
    using a1 a2 by (rule compute_influence_entry(2))
  {
    assume "stones_of ''b'' occupied = []"
    with point_influence_Inr [OF v] show "pctA = 0" by simp
  }
  {
    assume "stones_of ''w'' occupied = []"
    with point_influence_Inr [OF v] show "pctB = 0" by simp
  }
qed

text \<open>
  The theorem at the empty board of size 2, at the board of size 3 with one black stone
  and no white stone, and at the board of size 3 with one white stone and no black stone.
\<close>

theorem empty_colour_is_zero_percent_witness:
  "stones_of ''b'' [] = [] \<and> stones_of ''w'' [] = []
   \<and> compute_influence [] 2 =
       Inr [((0, 0), 0, 0, 0, 0, 0), ((1, 0), 0, 0, 0, 0, 0),
            ((0, 1), 0, 0, 0, 0, 0), ((1, 1), 0, 0, 0, 0, 0)]
   \<and> (3::int) \<le> 2 ^ 1022
   \<and> stones_of ''w'' [(''b'', (0, 0))] = [] \<and> on_grid 3 [(''b'', (0, 0))]
   \<and> (\<exists>m. compute_influence [(''b'', (0, 0))] 3 = Inr m
          \<and> set (map fst m) = {0..3 - 1} \<times> {0..3 - 1}
          \<and> list_all (\<lambda>(p, pctA, pctB, colour). pctB = 0) m)
   \<and> stones_of ''b'' [(''w'', (0, 0))] = [] \<and> on_grid 3 [(''w'', (0, 0))]
   \<and> (\<exists>m. compute_influence [(''w'', (0, 0))] 3 = Inr m
          \<and> set (map fst m) = {0..3 - 1} \<times> {0..3 - 1}
          \<and> list_all (\<lambda>(p, pctA, pctB, colour). pctA = 0) m)"
proof -
  have e: "stones_of ''b'' [] = []" "stones_of ''w'' [] = []"
    "stones_of ''w'' [(''b'', (0, 0))] = []" "stones_of ''b'' [(''w'', (0, 0))] = []"
    by (simp_all add: stones_of_def)
  note t = empty_colour_is_zero_percent [of "[]" 2]
  from t e have z: "compute_influence [] 2 =
       Inr [((0, 0), 0, 0, 0, 0, 0), ((1, 0), 0, 0, 0, 0, 0),
            ((0, 1), 0, 0, 0, 0, 0), ((1, 1), 0, 0, 0, 0, 0)]"
    by (simp add: grid_points_2)
  note u = empty_colour_is_zero_percent [of "[(''b'', (0, 0))]" 3]
  from u e(3) on_grid_one_black three_le obtain m where
    m: "compute_influence [(''b'', (0, 0))] 3 = Inr m"
    and km: "set (map fst m) = {0..3 - 1} \<times> {0..3 - 1}"
    by blast
  from u m e(3) have "\<forall>p pctA pctB colour. (p, pctA, pctB, colour) \<in> set m \<longrightarrow> pctB = 0"
    by blast
  then have lm: "list_all (\<lambda>(p, pctA, pctB, colour). pctB = 0) m"
    unfolding list_all_iff by fast
  note w = empty_colour_is_zero_percent [of "[(''w'', (0, 0))]" 3]
  from w e(4) on_grid_one_white three_le obtain n where
    n: "compute_influence [(''w'', (0, 0))] 3 = Inr n"
    and kn: "set (map fst n) = {0..3 - 1} \<times> {0..3 - 1}"
    by blast
  from w n e(4) have "\<forall>p pctA pctB colour. (p, pctA, pctB, colour) \<in> set n \<longrightarrow> pctA = 0"
    by blast
  then have ln: "list_all (\<lambda>(p, pctA, pctB, colour). pctA = 0) n"
    unfolding list_all_iff by fast
  from m km lm have 1: "\<exists>m. compute_influence [(''b'', (0, 0))] 3 = Inr m
          \<and> set (map fst m) = {0..3 - 1} \<times> {0..3 - 1}
          \<and> list_all (\<lambda>(p, pctA, pctB, colour). pctB = 0) m" by blast
  from n kn ln have 2: "\<exists>m. compute_influence [(''w'', (0, 0))] 3 = Inr m
          \<and> set (map fst m) = {0..3 - 1} \<times> {0..3 - 1}
          \<and> list_all (\<lambda>(p, pctA, pctB, colour). pctA = 0) m" by blast
  from e z three_le on_grid_one_black on_grid_one_white 1 2 show ?thesis
    by (intro conjI)
qed

subsection \<open>C8: the percentage decreases with the distance\<close>



subsection \<open>C9: exchanging the colours\<close>

text \<open>
  C9. For every board and size, exchanging the stones of colour A and colour B exchanges,
  in the entry of every point, the two percentages and the red and green channels of the
  colour, and leaves the blue channel, which is 0 in every entry; an exception is raised
  for the exchanged board exactly when one is raised for the board.
\<close>

theorem swap_colours_swaps_channels:
  "compute_influence (swap_colours occupied) sz
     = map_sum id (map (\<lambda>(p, pctA, pctB, (red, green, blue)). (p, pctB, pctA, (green, red, blue))))
         (compute_influence occupied sz)
   \<and> (\<forall>m p pctA pctB red green blue.
         compute_influence occupied sz = Inr m \<and> (p, pctA, pctB, (red, green, blue)) \<in> set m
           \<longrightarrow> blue = 0)"
proof (intro conjI allI impI)
  have f: "(\<lambda>(p, pctA, pctB, (red, green, blue)). (p, pctB, pctA, (green, red, blue))) = swap_entry"
    by (auto simp: swap_entry_def swap_value_def fun_eq_iff)
  show "compute_influence (swap_colours occupied) sz
     = map_sum id (map (\<lambda>(p, pctA, pctB, (red, green, blue)). (p, pctB, pctA, (green, red, blue))))
         (compute_influence occupied sz)"
    unfolding f compute_influence_eq stones_of_swap_colours
    using influence_loop_swap [where ws = "stones_of ''w'' occupied"
        and bs = "stones_of ''b'' occupied" and pts = "grid_points sz" and acc = "[]"]
    by simp
next
  fix m p pctA pctB red green blue
  assume "compute_influence occupied sz = Inr m \<and> (p, pctA, pctB, (red, green, blue)) \<in> set m"
  then have a1: "compute_influence occupied sz = Inr m"
    and a2: "(p, pctA, pctB, (red, green, blue)) \<in> set m" by simp_all
  from point_influence_Inr [OF compute_influence_entry(2) [OF a1 a2]]
  obtain a b where "colour_from_percentages a b = (red, green, blue)"
    by (simp only: prod.inject)
  then show "blue = 0" by (rule colour_blue_zero)
qed

text \<open>The theorem at the board of size 3 with one black stone, exchanged to one white stone.\<close>

theorem swap_colours_swaps_channels_witness:
  "compute_influence [(''w'', (0, 0))] 3 =
     Inr [((0, 0), 0, 100, 255, 0, 0),
          ((1, 0), 0, 50, 127, 0, 0),
          ((2, 0), 0, 2345624805922133 / 70368744177664, 85, 0, 0),
          ((0, 1), 0, 50, 127, 0, 0),
          ((1, 1), 0, 2345624805922133 / 70368744177664, 85, 0, 0),
          ((2, 1), 0, 25, 64, 0, 0),
          ((0, 2), 0, 2345624805922133 / 70368744177664, 85, 0, 0),
          ((1, 2), 0, 25, 64, 0, 0),
          ((2, 2), 0, 20, 51, 0, 0)]
   \<and> (\<exists>m. compute_influence [(''b'', (0, 0))] 3 = Inr m
          \<and> m \<noteq> [] \<and> list_all (\<lambda>(p, pctA, pctB, (red, green, blue)). blue = 0) m)"
proof -
  note t = swap_colours_swaps_channels [of "[(''b'', (0, 0))]" 3]
  have s: "swap_colours [(''b'', (0, 0))] = [(''w'', (0, 0))]"
    by (simp add: swap_colours_def)
  from t have 1: "compute_influence [(''w'', (0, 0))] 3 =
     Inr [((0, 0), 0, 100, 255, 0, 0),
          ((1, 0), 0, 50, 127, 0, 0),
          ((2, 0), 0, 2345624805922133 / 70368744177664, 85, 0, 0),
          ((0, 1), 0, 50, 127, 0, 0),
          ((1, 1), 0, 2345624805922133 / 70368744177664, 85, 0, 0),
          ((2, 1), 0, 25, 64, 0, 0),
          ((0, 2), 0, 2345624805922133 / 70368744177664, 85, 0, 0),
          ((1, 2), 0, 25, 64, 0, 0),
          ((2, 2), 0, 20, 51, 0, 0)]"
    by (simp add: s compute_influence_3x3)
  obtain m where m: "compute_influence [(''b'', (0, 0))] 3 = Inr m" and ne: "m \<noteq> []"
    by (simp add: compute_influence_3x3)
  from t m have "\<forall>p pctA pctB red green blue.
      (p, pctA, pctB, (red, green, blue)) \<in> set m \<longrightarrow> blue = 0"
    by blast
  then have "list_all (\<lambda>(p, pctA, pctB, (red, green, blue)). blue = 0) m"
    unfolding list_all_iff by fast
  with 1 m ne show ?thesis by blast
qed

subsection \<open>C10: one more stone\<close>

text \<open>
  C10. For every point \<open>p\<close> and every additional stone \<open>s\<close>, the percentage of a colour at
  \<open>p\<close> in the map of a board whose stones of that colour are those of \<open>occupied\<close> and \<open>s\<close>
  is greater than or equal to the percentage at \<open>p\<close> in the map of \<open>occupied\<close>.
\<close>

theorem adding_stone_never_decreases:
  assumes "compute_influence occupied sz = Inr m"
    and "compute_influence occupied' sz = Inr m'"
    and "map_of m p = Some (pctA, pctB, colour)"
    and "map_of m' p = Some (pctA', pctB', colour')"
  shows "(set (stones_of ''b'' occupied') = insert s (set (stones_of ''b'' occupied))
            \<longrightarrow> pctA \<le> pctA')
       \<and> (set (stones_of ''w'' occupied') = insert s (set (stones_of ''w'' occupied))
            \<longrightarrow> pctB \<le> pctB')"
proof -
  have mono: "(if old = [] then 0 else pct_value (min_distance old p))
      \<le> (if new = [] then 0 else pct_value (min_distance new p))"
    if "set new = insert s (set old)" for old new :: "point list"
  proof (cases "old = []")
    case True
    from that have "new \<noteq> []" by auto
    with True show ?thesis by (simp add: pct_value_range min_distance_nonneg)
  next
    case False
    from that have n: "new \<noteq> []" by auto
    have "min_distance new p \<le> min_distance old p"
      using False that by (rule min_distance_insert)
    with False n show ?thesis
      by (simp add: pct_value_antimono min_distance_nonneg)
  qed
  note v = point_influence_Inr [OF compute_influence_map_of [OF assms(1,3)]]
  note v' = point_influence_Inr [OF compute_influence_map_of [OF assms(2,4)]]
  from v v' show ?thesis
    using mono [of "stones_of ''b'' occupied'" "stones_of ''b'' occupied"]
      mono [of "stones_of ''w'' occupied'" "stones_of ''w'' occupied"]
    by (simp only: prod.inject) blast
qed

text \<open>
  The theorem at the point \<open>(2, 0)\<close> of the board of size 3: a second black stone at
  \<open>(2, 1)\<close> added to the black stone at \<open>(0, 0)\<close> raises the percentage of black from
  \<open>33.33\<dots>\<close> to 50, and likewise for two white stones.
\<close>

theorem adding_stone_never_decreases_witness:
  "(\<exists>m m'. compute_influence [(''b'', (0, 0))] 3 = Inr m
        \<and> compute_influence [(''b'', (0, 0)), (''b'', (2, 1))] 3 = Inr m'
        \<and> map_of m (2, 0) = Some (2345624805922133 / 70368744177664, 0, (0, 85, 0))
        \<and> map_of m' (2, 0) = Some (50, 0, (0, 127, 0)))
   \<and> set (stones_of ''b'' [(''b'', (0, 0)), (''b'', (2, 1))])
       = insert (2, 1) (set (stones_of ''b'' [(''b'', (0, 0))]))
   \<and> (\<exists>m m'. compute_influence [(''w'', (0, 0))] 3 = Inr m
        \<and> compute_influence [(''w'', (0, 0)), (''w'', (2, 1))] 3 = Inr m'
        \<and> map_of m (2, 0) = Some (0, 2345624805922133 / 70368744177664, (85, 0, 0))
        \<and> map_of m' (2, 0) = Some (0, 50, (127, 0, 0)))
   \<and> set (stones_of ''w'' [(''w'', (0, 0)), (''w'', (2, 1))])
       = insert (2, 1) (set (stones_of ''w'' [(''w'', (0, 0))]))
   \<and> (2345624805922133 / 70368744177664 :: rat) \<le> 50"
proof -
  obtain mb where mb: "compute_influence [(''b'', (0, 0)), (''b'', (2, 1))] 3 = Inr mb"
    and lb: "map_of mb (2, 0) = Some (50, 0, (0, 127, 0))"
    using two_black_stones by blast
  obtain mw where mw: "compute_influence [(''w'', (0, 0)), (''w'', (2, 1))] 3 = Inr mw"
    and lw: "map_of mw (2, 0) = Some (0, 50, (127, 0, 0))"
    using two_white_stones by blast
  have ib: "set (stones_of ''b'' [(''b'', (0, 0)), (''b'', (2, 1))])
       = insert (2, 1) (set (stones_of ''b'' [(''b'', (0, 0))]))"
    by (auto simp: stones_of_def)
  have iw: "set (stones_of ''w'' [(''w'', (0, 0)), (''w'', (2, 1))])
       = insert (2, 1) (set (stones_of ''w'' [(''w'', (0, 0))]))"
    by (auto simp: stones_of_def)
  from adding_stone_never_decreases [OF compute_influence_3x3 mb map_of_3x3(1) lb, of "(2, 1)"] ib
  have le: "(2345624805922133 / 70368744177664 :: rat) \<le> 50" by blast
  from adding_stone_never_decreases
    [OF compute_influence_3x3_white mw map_of_3x3_white lw, of "(2, 1)"] iw
  have le': "(2345624805922133 / 70368744177664 :: rat) \<le> 50" by blast
  have 1: "\<exists>m m'. compute_influence [(''b'', (0, 0))] 3 = Inr m
        \<and> compute_influence [(''b'', (0, 0)), (''b'', (2, 1))] 3 = Inr m'
        \<and> map_of m (2, 0) = Some (2345624805922133 / 70368744177664, 0, (0, 85, 0))
        \<and> map_of m' (2, 0) = Some (50, 0, (0, 127, 0))"
    using compute_influence_3x3 mb map_of_3x3(1) lb by blast
  have 2: "\<exists>m m'. compute_influence [(''w'', (0, 0))] 3 = Inr m
        \<and> compute_influence [(''w'', (0, 0)), (''w'', (2, 1))] 3 = Inr m'
        \<and> map_of m (2, 0) = Some (0, 2345624805922133 / 70368744177664, (85, 0, 0))
        \<and> map_of m' (2, 0) = Some (0, 50, (127, 0, 0))"
    using compute_influence_3x3_white mw map_of_3x3_white lw by blast
  from 1 ib 2 iw le' show ?thesis by (intro conjI)
qed

end
